theory Spec2Isabelle
  imports Main "HOL-Library.Sublist" "HOL-Library.AList"
begin

section \<open>Strings and path normalisation\<close>

text \<open>
  Python strings are modelled as \<^typ>\<open>string\<close>. \<open>str.startswith\<close> is \<^const>\<open>prefix\<close>,
  the slice \<open>s[n:]\<close> is \<^const>\<open>drop\<close>, \<open>+\<close> on strings is \<open>@\<close>.
\<close>

text \<open>\<open>str.split(sep)\<close> for a one-character separator: always at least one piece.\<close>

fun split :: "char \<Rightarrow> string \<Rightarrow> string list" where
  "split sep [] = [[]]"
| "split sep (c # cs) =
     (if c = sep then [] # split sep cs
      else (case split sep cs of [] \<Rightarrow> [[c]] | w # ws \<Rightarrow> (c # w) # ws))"

text \<open>\<open>sep.join(comps)\<close>.\<close>

fun join :: "string \<Rightarrow> string list \<Rightarrow> string" where
  "join sep [] = []"
| "join sep [x] = x"
| "join sep (x # y # ys) = x @ sep @ join sep (y # ys)"

text \<open>
  \<open>os.path.normpath\<close> of the POSIX flavour (the program's paths are macOS paths). The body
  of its \<open>for comp in comps\<close> loop is \<open>norm_step\<close> (\<open>comp\<close> is written \<open>cmp\<close>); \<open>initial_slashes\<close> is 0, 1 or 2.
\<close>

definition norm_step :: "nat \<Rightarrow> string list \<Rightarrow> string \<Rightarrow> string list" where
  "norm_step initial_slashes new_comps cmp =
     (if cmp = [] \<or> cmp = ''.'' then new_comps
      else if cmp \<noteq> ''..'' \<or> (initial_slashes = 0 \<and> new_comps = [])
                \<or> (new_comps \<noteq> [] \<and> last new_comps = ''..'')
           then new_comps @ [cmp]
      else if new_comps \<noteq> [] then butlast new_comps
      else new_comps)"

definition normpath :: "string \<Rightarrow> string" where
  "normpath path =
     (if path = [] then ''.''
      else
        let initial_slashes =
              (if prefix ''/'' path
               then (if prefix ''//'' path \<and> \<not> prefix ''///'' path then 2 else 1)
               else (0::nat));
            comps = split CHR ''/'' path;
            new_comps = foldl (norm_step initial_slashes) [] comps;
            path' = join ''/'' new_comps;
            path'' = (if initial_slashes \<noteq> 0
                      then replicate initial_slashes CHR ''/'' @ path' else path')
        in if path'' = [] then ''.'' else path'')"

section \<open>The sync object\<close>

text \<open>
  The environment is a map from variable names to values; \<open>os.getenv(key, default)\<close> is
  \<open>getenv\<close>.
\<close>

type_synonym environ = "string \<rightharpoonup> string"

definition getenv :: "environ \<Rightarrow> string \<Rightarrow> string \<Rightarrow> string" where
  "getenv env key dflt = (case env key of None \<Rightarrow> dflt | Some v \<Rightarrow> v)"

text \<open>
  The string attributes of \<open>SeratoMetadataSync\<close>. Its three \<open>Path\<close> attributes are
  computed from these once and never reassigned; they are the functions \<open>source_serato\<close>,
  \<open>target_serato\<close> and \<open>target_music\<close> below.
\<close>

record sync =
  source_music :: string
  target_drive :: string
  crate_prefix :: string

definition SeratoMetadataSync_init :: "environ \<Rightarrow> string \<Rightarrow> sync" where
  "SeratoMetadataSync_init env crate_prefix_arg =
     \<lparr> source_music = getenv env ''source_music'' ''/Users/berrio/Music'',
       target_drive = getenv env ''target'' ''/Volumes/sandisk'',
       crate_prefix = getenv env ''crate_prefix'' crate_prefix_arg \<rparr>"

definition remap_path :: "sync \<Rightarrow> string \<Rightarrow> string" where
  "remap_path s original_path =
     (let original_path = normpath original_path in
      if prefix (source_music s) original_path
      then (let relative_part = drop (length (source_music s)) original_path;
                new_path = ''/Music'' @ relative_part
            in new_path)
      else original_path)"

section \<open>The filesystem\<close>

text \<open>
  A path is the list of its components below the filesystem root; the root is \<open>[]\<close>.
  \<open>Path(str)\<close> splits at the separator and drops empty and \<open>.\<close> components, as pathlib
  does; \<open>..\<close> components and symbolic links are not resolved, and a relative path is read
  from the root. \<open>p / name\<close> is \<open>pjoin\<close>: an absolute right operand replaces the left one.
\<close>

type_synonym path = "string list"

definition Path :: "string \<Rightarrow> path" where
  "Path str = filter (\<lambda>c. c \<noteq> [] \<and> c \<noteq> ''.'') (split CHR ''/'' str)"

definition pjoin :: "path \<Rightarrow> string \<Rightarrow> path" where
  "pjoin p name = (if prefix ''/'' name then Path name else p @ Path name)"

text \<open>
  A track record carries its path, the played flag and whatever other fields the record
  store keeps. An artifact file holds the track records of one kind of artifact; any other
  file holds bytes (a preference file, or a crate that does not parse).
\<close>

record track =
  relpath :: string
  played :: bool
  other_fields :: "(string \<times> string) list"

datatype kind = Crate | SmartCrate | DatabaseV2

datatype fdata = Artifact kind "track list" | Raw string

datatype node = Dir | File fdata

text \<open>
  The filesystem is the list of its entries, in directory-listing order. The root is always
  a directory.
\<close>

type_synonym filesystem = "(path \<times> node) list"

datatype error =
    FileNotFoundError | FileExistsError | NotADirectoryError | IsADirectoryError
  | SameFileError | ParseError | ValueError

definition lookup :: "filesystem \<Rightarrow> path \<Rightarrow> node option" where
  "lookup fs p = (if p = [] then Some Dir else map_of fs p)"

text \<open>\<open>Path.exists()\<close> and \<open>Path.is_dir()\<close>.\<close>

definition path_exists :: "filesystem \<Rightarrow> path \<Rightarrow> bool" where
  "path_exists fs p = (lookup fs p \<noteq> None)"

definition is_dir :: "filesystem \<Rightarrow> path \<Rightarrow> bool" where
  "is_dir fs p = (lookup fs p = Some Dir)"

text \<open>
  A filesystem is a tree when no path is listed twice and every entry lies in a directory.
\<close>

definition tree :: "filesystem \<Rightarrow> bool" where
  "tree fs = (distinct (map fst fs) \<and> (\<forall>p \<in> set (map fst fs). p \<noteq> [] \<and> is_dir fs (butlast p)))"

text \<open>\<open>os.mkdir\<close>: creates one directory, in an existing directory.\<close>

definition os_mkdir :: "filesystem \<Rightarrow> path \<Rightarrow> error + filesystem" where
  "os_mkdir fs p =
     (if path_exists fs p then Inl FileExistsError
      else case lookup fs (butlast p) of
             None \<Rightarrow> Inl FileNotFoundError
           | Some (File d) \<Rightarrow> Inl NotADirectoryError
           | Some Dir \<Rightarrow> Inr (fs @ [(p, Dir)]))"

text \<open>
  \<open>Path.mkdir(parents=True, exist_ok=True)\<close>, as pathlib writes it: try \<open>os.mkdir\<close>; when
  the parent is missing, create the parent the same way and try once more; any other error is
  dropped when the path is a directory already. The result is the filesystem as the call
  leaves it and the exception raised, if any.
\<close>

definition mkdir_exist_ok :: "filesystem \<Rightarrow> path \<Rightarrow> filesystem \<times> error option" where
  "mkdir_exist_ok fs p =
     (case os_mkdir fs p of
        Inr fs' \<Rightarrow> (fs', None)
      | Inl e \<Rightarrow> if e = FileNotFoundError then (fs, Some e)
                 else if is_dir fs p then (fs, None) else (fs, Some e))"

function mkdir_parents :: "filesystem \<Rightarrow> path \<Rightarrow> filesystem \<times> error option" where
  "mkdir_parents fs p =
     (case os_mkdir fs p of
        Inr fs' \<Rightarrow> (fs', None)
      | Inl e \<Rightarrow>
          if e = FileNotFoundError then
            (if p = [] then (fs, Some e)
             else case mkdir_parents fs (butlast p) of
                    (fs', Some e') \<Rightarrow> (fs', Some e')
                  | (fs', None) \<Rightarrow> mkdir_exist_ok fs' p)
          else if is_dir fs p then (fs, None) else (fs, Some e))"
  by pat_completeness auto
termination
  by (relation "measure (\<lambda>(fs, p). length p)") auto

declare mkdir_parents.simps [simp del]

text \<open>
  \<open>shutil.rmtree\<close>: removes a directory and everything below it, which leaves the entries
  outside it.
\<close>

definition outside :: "path \<Rightarrow> filesystem \<Rightarrow> filesystem" where
  "outside p fs = filter (\<lambda>(q, n). \<not> prefix p q) fs"

definition rmtree :: "filesystem \<Rightarrow> path \<Rightarrow> error + filesystem" where
  "rmtree fs p =
     (case lookup fs p of
        None \<Rightarrow> Inl FileNotFoundError
      | Some (File d) \<Rightarrow> Inl NotADirectoryError
      | Some Dir \<Rightarrow> Inr (outside p fs))"

text \<open>
  \<open>Path.glob("*" + ext)\<close>: the entries of a directory whose name ends with \<open>ext\<close>, in
  listing order; nothing when the path is not a directory.
\<close>

definition glob :: "filesystem \<Rightarrow> path \<Rightarrow> string \<Rightarrow> path list" where
  "glob fs d ext =
     (if is_dir fs d
      then filter (\<lambda>q. q \<noteq> [] \<and> butlast q = d \<and> suffix ext (last q)) (map fst fs)
      else [])"

text \<open>
  The record store, by its contract: opening a file of kind \<open>k\<close> gives its track records
  or fails; saving writes the records to a file in an existing directory.
\<close>

definition load :: "kind \<Rightarrow> filesystem \<Rightarrow> path \<Rightarrow> error + track list" where
  "load k fs p =
     (case lookup fs p of
        None \<Rightarrow> Inl FileNotFoundError
      | Some Dir \<Rightarrow> Inl IsADirectoryError
      | Some (File (Raw bytes)) \<Rightarrow> Inl ParseError
      | Some (File (Artifact k' tracks)) \<Rightarrow> if k' = k then Inr tracks else Inl ParseError)"

definition write_file :: "filesystem \<Rightarrow> path \<Rightarrow> fdata \<Rightarrow> error + filesystem" where
  "write_file fs p d =
     (case lookup fs p of
        Some Dir \<Rightarrow> Inl IsADirectoryError
      | _ \<Rightarrow> (case lookup fs (butlast p) of
                None \<Rightarrow> Inl FileNotFoundError
              | Some (File d') \<Rightarrow> Inl NotADirectoryError
              | Some Dir \<Rightarrow> Inr (AList.update p (File d) fs)))"

definition save :: "kind \<Rightarrow> filesystem \<Rightarrow> path \<Rightarrow> track list \<Rightarrow> error + filesystem" where
  "save k fs p tracks = write_file fs p (Artifact k tracks)"

text \<open>
  \<open>shutil.copy2(src, dst)\<close>: a directory as destination means the file of the same name in
  it; copying a file onto itself is refused.
\<close>

definition copy2 :: "filesystem \<Rightarrow> path \<Rightarrow> path \<Rightarrow> error + filesystem" where
  "copy2 fs src dst =
     (let dst = (if is_dir fs dst then dst @ [last src] else dst) in
      if path_exists fs src \<and> src = dst then Inl SameFileError
      else case lookup fs src of
             None \<Rightarrow> Inl FileNotFoundError
           | Some Dir \<Rightarrow> Inl IsADirectoryError
           | Some (File d) \<Rightarrow> write_file fs dst d)"

section \<open>The sync run\<close>

definition source_serato :: "sync \<Rightarrow> path" where
  "source_serato s = pjoin (Path (source_music s)) ''_Serato_''"

definition target_serato :: "sync \<Rightarrow> path" where
  "target_serato s = pjoin (pjoin (Path (target_drive s)) ''Music'') ''_Serato_''"

definition target_music :: "sync \<Rightarrow> path" where
  "target_music s = pjoin (Path (target_drive s)) ''Music''"

text \<open>
  What a run prints, as far as it reports an outcome: a \<open>Done\<close> line for an artifact or file
  written, a \<open>Failed\<close> line for an exception caught, a \<open>Not_found\<close> line for a category
  absent at the source. A step returns the filesystem as it leaves it, the lines it printed,
  and its return value or the exception it raised.
\<close>

datatype event = Done string | Failed string error | Not_found string

type_synonym 'a run = "filesystem \<times> event list \<times> (error + 'a)"

definition validate_paths :: "sync \<Rightarrow> filesystem \<Rightarrow> error + unit" where
  "validate_paths s fs =
     (if \<not> path_exists fs (source_serato s) then Inl FileNotFoundError
      else if \<not> path_exists fs (target_music s) then Inl FileNotFoundError
      else Inr ())"

text \<open>
  The two \<open>modify_track\<close> closures: of the crates and smart crates, and of the database.
  A record keeps the path as the closure hands it to \<open>set_path\<close>. The form in which the
  record store then keeps it in the file (without the separator at its front) is not
  described: the theorems below state nothing about the path of a record written.
\<close>

definition modify_track :: "sync \<Rightarrow> track \<Rightarrow> track" where
  "modify_track s t = (let new_path = remap_path s (relpath t) in t\<lparr>relpath := new_path\<rparr>)"

definition modify_track_db :: "sync \<Rightarrow> track \<Rightarrow> track" where
  "modify_track_db s t =
     (let new_path = remap_path s (relpath t) in t\<lparr>relpath := new_path, played := False\<rparr>)"

text \<open>
  The body of the \<open>for\<close> loops of \<open>sync_crates\<close> and \<open>sync_smart_crates\<close>, which differ in the
  class that opens the file only: everything is inside \<open>try\<close>, and any exception ends this
  file with a \<open>Failed\<close> line.
\<close>

definition sync_file :: "kind \<Rightarrow> sync \<Rightarrow> path \<Rightarrow> filesystem \<Rightarrow> path \<Rightarrow> filesystem \<times> event" where
  "sync_file k s target_dir fs crate_file =
     (case load k fs crate_file of
        Inl e \<Rightarrow> (fs, Failed (last crate_file) e)
      | Inr tracks \<Rightarrow>
          (let tracks = map (modify_track s) tracks;
               new_name = (if crate_prefix s \<noteq> [] then crate_prefix s @ last crate_file
                           else last crate_file);
               target_file = pjoin target_dir new_name
           in (case save k fs target_file tracks of
                 Inl e \<Rightarrow> (fs, Failed (last crate_file) e)
               | Inr fs' \<Rightarrow> (fs', Done (last crate_file)))))"

fun sync_files :: "kind \<Rightarrow> sync \<Rightarrow> path \<Rightarrow> filesystem \<Rightarrow> path list \<Rightarrow> filesystem \<times> event list" where
  "sync_files k s target_dir fs [] = (fs, [])"
| "sync_files k s target_dir fs (crate_file # rest) =
     (case sync_file k s target_dir fs crate_file of
        (fs', ev) \<Rightarrow> (case sync_files k s target_dir fs' rest of
                        (fs'', evs) \<Rightarrow> (fs'', ev # evs)))"

definition sync_crates :: "sync \<Rightarrow> filesystem \<Rightarrow> nat run" where
  "sync_crates s fs =
     (let source_crates_dir = pjoin (source_serato s) ''Subcrates'';
          target_crates_dir = pjoin (target_serato s) ''Subcrates''
      in if \<not> path_exists fs source_crates_dir then (fs, [Not_found ''Subcrates''], Inr 0)
         else case mkdir_parents fs target_crates_dir of
                (fs', Some e) \<Rightarrow> (fs', [], Inl e)
              | (fs', None) \<Rightarrow>
                  let crate_files = glob fs' source_crates_dir ''.crate'' in
                  case sync_files Crate s target_crates_dir fs' crate_files of
                    (fs'', evs) \<Rightarrow> (fs'', evs, Inr (length crate_files)))"

definition sync_smart_crates :: "sync \<Rightarrow> filesystem \<Rightarrow> nat run" where
  "sync_smart_crates s fs =
     (let source_smart_dir = pjoin (source_serato s) ''SmartCrates'';
          target_smart_dir = pjoin (target_serato s) ''SmartCrates''
      in if \<not> path_exists fs source_smart_dir then (fs, [Not_found ''SmartCrates''], Inr 0)
         else case mkdir_parents fs target_smart_dir of
                (fs', Some e) \<Rightarrow> (fs', [], Inl e)
              | (fs', None) \<Rightarrow>
                  let smart_crate_files = glob fs' source_smart_dir ''.scrate'' in
                  case sync_files SmartCrate s target_smart_dir fs' smart_crate_files of
                    (fs'', evs) \<Rightarrow> (fs'', evs, Inr (length smart_crate_files)))"

text \<open>\<open>sync_database\<close> catches every exception, so it returns nothing but its effects.\<close>

definition sync_database :: "sync \<Rightarrow> filesystem \<Rightarrow> filesystem \<times> event list" where
  "sync_database s fs =
     (let source_db = pjoin (source_serato s) ''database V2'';
          target_db = pjoin (target_serato s) ''database V2''
      in if \<not> path_exists fs source_db then (fs, [Not_found ''database V2''])
         else case load DatabaseV2 fs source_db of
                Inl e \<Rightarrow> (fs, [Failed ''database V2'' e])
              | Inr tracks \<Rightarrow>
                  (let tracks = map (modify_track_db s) tracks in
                   (case mkdir_parents fs (target_serato s) of
                      (fs', Some e) \<Rightarrow> (fs', [Failed ''database V2'' e])
                    | (fs', None) \<Rightarrow>
                        (case save DatabaseV2 fs' target_db tracks of
                           Inl e \<Rightarrow> (fs', [Failed ''database V2'' e])
                         | Inr fs'' \<Rightarrow> (fs'', [Done ''database V2''])))))"

definition files_to_copy :: "string list" where
  "files_to_copy = [''neworder.pref'', ''window.pref'', ''collapsed.pref'']"

text \<open>
  The loop of \<open>sync_other_files\<close>, with \<open>copied\<close> as it stands before the file: nothing
  catches the exception of \<open>copy2\<close>.
\<close>

fun copy_files :: "sync \<Rightarrow> filesystem \<Rightarrow> nat \<Rightarrow> string list \<Rightarrow> nat run" where
  "copy_files s fs copied [] = (fs, [], Inr copied)"
| "copy_files s fs copied (filename # rest) =
     (let source_file = pjoin (source_serato s) filename in
      if path_exists fs source_file then
        (let target_file = pjoin (target_serato s) filename in
         case copy2 fs source_file target_file of
           Inl e \<Rightarrow> (fs, [], Inl e)
         | Inr fs' \<Rightarrow> (case copy_files s fs' (copied + 1) rest of
                         (fs'', evs, r) \<Rightarrow> (fs'', Done filename # evs, r)))
      else copy_files s fs copied rest)"

definition sync_other_files :: "sync \<Rightarrow> filesystem \<Rightarrow> nat run" where
  "sync_other_files s fs = copy_files s fs 0 files_to_copy"

text \<open>
  \<open>sync_all\<close>; on success the result is the three counts of the summary. The removal of the
  old destination tree is \<open>clear_target\<close>.
\<close>

definition clear_target :: "sync \<Rightarrow> filesystem \<Rightarrow> error + filesystem" where
  "clear_target s fs =
     (if path_exists fs (target_serato s) then rmtree fs (target_serato s) else Inr fs)"

definition sync_components :: "sync \<Rightarrow> filesystem \<Rightarrow> (nat \<times> nat \<times> nat) run" where
  "sync_components s fs =
     (case sync_crates s fs of
        (fs1, ev1, Inl e) \<Rightarrow> (fs1, ev1, Inl e)
      | (fs1, ev1, Inr crate_count) \<Rightarrow>
     (case sync_smart_crates s fs1 of
        (fs2, ev2, Inl e) \<Rightarrow> (fs2, ev1 @ ev2, Inl e)
      | (fs2, ev2, Inr smart_count) \<Rightarrow>
     (case sync_database s fs2 of
        (fs3, ev3) \<Rightarrow>
     (case sync_other_files s fs3 of
        (fs4, ev4, Inl e) \<Rightarrow> (fs4, ev1 @ ev2 @ ev3 @ ev4, Inl e)
      | (fs4, ev4, Inr other_count) \<Rightarrow>
          (fs4, ev1 @ ev2 @ ev3 @ ev4, Inr (crate_count, smart_count, other_count))))))"

definition sync_all :: "sync \<Rightarrow> filesystem \<Rightarrow> (nat \<times> nat \<times> nat) run" where
  "sync_all s fs =
     (case validate_paths s fs of
        Inl e \<Rightarrow> (fs, [], Inl e)
      | Inr u \<Rightarrow>
          (case clear_target s fs of
             Inl e \<Rightarrow> (fs, [], Inl e)
           | Inr fs' \<Rightarrow> sync_components s fs'))"

text \<open>\<open>main\<close>: the exit code is 1 when an exception reaches it.\<close>

definition main :: "environ \<Rightarrow> filesystem \<Rightarrow> filesystem \<times> event list \<times> nat" where
  "main env fs =
     (let sync = SeratoMetadataSync_init env [] in
      case sync_all sync fs of
        (fs', evs, Inl e) \<Rightarrow> (fs', evs, 1)
      | (fs', evs, Inr counts) \<Rightarrow> (fs', evs, 0))"

text \<open>The constructor of the backup flow, which does reject a missing value.\<close>

record backup =
  source :: string
  target :: string

definition SeratoBackup_init :: "environ \<Rightarrow> error + backup" where
  "SeratoBackup_init env =
     (case env ''source'' of
        None \<Rightarrow> Inl ValueError
      | Some src \<Rightarrow>
          if src = [] then Inl ValueError
          else (case env ''target'' of
                  None \<Rightarrow> Inl ValueError
                | Some tgt \<Rightarrow>
                    if tgt = [] then Inl ValueError
                    else Inr \<lparr> source = src, target = tgt \<rparr>))"

section \<open>Example libraries\<close>

definition sync_ex :: sync where
  "sync_ex = \<lparr> source_music = ''/Users/berrio/Music'', target_drive = ''/Volumes/sandisk'',
               crate_prefix = ''USB_'' \<rparr>"

definition track_a :: track where
  "track_a = \<lparr> relpath = ''/Users/berrio/Music/DJ Music/a.mp3'', played = True,
               other_fields = [] \<rparr>"

definition track_b :: track where
  "track_b = \<lparr> relpath = ''/Users/other/b.mp3'', played = False,
               other_fields = [(''bpm'', ''120'')] \<rparr>"

definition src_dir :: path where
  "src_dir = [''Users'', ''berrio'', ''Music'', ''_Serato_'']"

definition tgt_dir :: path where
  "tgt_dir = [''Volumes'', ''sandisk'', ''Music'', ''_Serato_'']"

text \<open>The directories above the two metadata directories; the destination has its music.\<close>

definition fs_roots :: filesystem where
  "fs_roots =
     [([''Users''], Dir), ([''Users'', ''berrio''], Dir), ([''Users'', ''berrio'', ''Music''], Dir),
      ([''Volumes''], Dir), ([''Volumes'', ''sandisk''], Dir),
      ([''Volumes'', ''sandisk'', ''Music''], Dir)]"

text \<open>
  A library with three crates, the second of which does not parse, a smart crate, a
  database and one preference file; the destination holds the metadata of an earlier run.
\<close>

definition fs_library :: filesystem where
  "fs_library = fs_roots @
     [(src_dir, Dir), (src_dir @ [''Subcrates''], Dir),
      (src_dir @ [''Subcrates'', ''House.crate''], File (Artifact Crate [track_a])),
      (src_dir @ [''Subcrates'', ''Bad.crate''], File (Raw ''junk'')),
      (src_dir @ [''Subcrates'', ''Techno.crate''], File (Artifact Crate [track_b])),
      (src_dir @ [''SmartCrates''], Dir),
      (src_dir @ [''SmartCrates'', ''Recent.scrate''], File (Artifact SmartCrate [track_a])),
      (src_dir @ [''database V2''], File (Artifact DatabaseV2 [track_a, track_b])),
      (src_dir @ [''neworder.pref''], File (Raw ''order'')),
      (tgt_dir, Dir), (tgt_dir @ [''stale.crate''], File (Raw ''old''))]"

text \<open>A library that has a database only, synced for the first time.\<close>

definition fs_database_only :: filesystem where
  "fs_database_only = fs_roots @
     [(src_dir, Dir), (src_dir @ [''database V2''], File (Artifact DatabaseV2 [track_a, track_b]))]"

text \<open>A library that has two preference files only, synced for the first time.\<close>

definition fs_prefs_only :: filesystem where
  "fs_prefs_only = fs_roots @
     [(src_dir, Dir), (src_dir @ [''neworder.pref''], File (Raw ''order'')),
      (src_dir @ [''window.pref''], File (Raw ''window''))]"

text \<open>The same with one preference file, and metadata of an earlier run at the destination.\<close>

definition fs_pref_stale :: filesystem where
  "fs_pref_stale = fs_roots @
     [(src_dir, Dir), (src_dir @ [''collapsed.pref''], File (Raw ''collapsed'')),
      (tgt_dir, Dir), (tgt_dir @ [''stale.crate''], File (Raw ''old''))]"

text \<open>No library at the source, and metadata of an earlier run at the destination.\<close>

definition fs_no_source :: filesystem where
  "fs_no_source = fs_roots @ [(tgt_dir, Dir), (tgt_dir @ [''stale.crate''], File (Raw ''old''))]"

text \<open>An empty library at the default source, and old metadata at the default destination.\<close>

definition fs_defaults :: filesystem where
  "fs_defaults = fs_roots @
     [(src_dir, Dir), (tgt_dir, Dir), (tgt_dir @ [''stale.crate''], File (Raw ''old''))]"


text \<open>A library whose database does not parse, with one preference file.\<close>

definition fs_bad_database :: filesystem where
  "fs_bad_database = fs_roots @
     [(src_dir, Dir), (src_dir @ [''database V2''], File (Raw ''junk'')),
      (src_dir @ [''neworder.pref''], File (Raw ''order''))]"


section \<open>Path remapping\<close>

lemma pjoin_literal [simp]:
  "pjoin p ''_Serato_'' = p @ [''_Serato_'']"
  "pjoin p ''Music'' = p @ [''Music'']"
  "pjoin p ''Subcrates'' = p @ [''Subcrates'']"
  "pjoin p ''SmartCrates'' = p @ [''SmartCrates'']"
  "pjoin p ''database V2'' = p @ [''database V2'']"
  "pjoin p ''neworder.pref'' = p @ [''neworder.pref'']"
  "pjoin p ''window.pref'' = p @ [''window.pref'']"
  "pjoin p ''collapsed.pref'' = p @ [''collapsed.pref'']"
  by (simp_all add: pjoin_def Path_def)

lemma normpath_example:
  "normpath ''/Users/berrio/Music//DJ Music/./x/../track.mp3''
     = ''/Users/berrio/Music/DJ Music/track.mp3''"
  by (simp add: normpath_def norm_step_def)

text \<open>
  Claim C1. For every path string whose normalised form starts with the source music root,
  \<open>remap_path\<close> returns \<open>/Music\<close> followed by the normalised path without its first
  \<open>len(source_music)\<close> characters.
\<close>

theorem remap_path_under_root:
  "prefix (source_music s) (normpath p) \<Longrightarrow>
   remap_path s p = ''/Music'' @ drop (length (source_music s)) (normpath p)"
  by (simp add: remap_path_def)

theorem remap_path_under_root_witness:
  "prefix (source_music sync_ex) (normpath ''/Users/berrio/Music//DJ Music/./track.mp3'')
   \<and> remap_path sync_ex ''/Users/berrio/Music//DJ Music/./track.mp3'' = ''/Music/DJ Music/track.mp3''"
proof -
  have n: "normpath ''/Users/berrio/Music//DJ Music/./track.mp3''
             = ''/Users/berrio/Music/DJ Music/track.mp3''"
    by (simp add: normpath_def norm_step_def)
  have h: "prefix (source_music sync_ex) (normpath ''/Users/berrio/Music//DJ Music/./track.mp3'')"
    unfolding n by (simp add: sync_ex_def)
  from remap_path_under_root [OF h] h show ?thesis
    by (simp add: n sync_ex_def)
qed

text \<open>
  Claim C2. For every path string whose normalised form does not start with the source music
  root, \<open>remap_path\<close> returns the normalised form. No branch of \<open>remap_path\<close> or of
  \<open>normpath\<close> raises: both are total functions of the string, defined by recursion on it.
\<close>

theorem remap_path_outside_root:
  "\<not> prefix (source_music s) (normpath p) \<Longrightarrow> remap_path s p = normpath p"
  by (simp add: remap_path_def)

theorem remap_path_outside_root_witness:
  "\<not> prefix (source_music sync_ex) (normpath ''/Users/other/./b.mp3'')
   \<and> remap_path sync_ex ''/Users/other/./b.mp3'' = ''/Users/other/b.mp3''"
proof -
  have n: "normpath ''/Users/other/./b.mp3'' = ''/Users/other/b.mp3''"
    by (simp add: normpath_def norm_step_def)
  have h: "\<not> prefix (source_music sync_ex) (normpath ''/Users/other/./b.mp3'')"
    unfolding n by (simp add: sync_ex_def)
  from remap_path_outside_root [OF h] h show ?thesis
    by (simp add: n)
qed

text \<open>
  Claim C8. The prefix test compares characters only: whenever the normalised path is the
  source music root followed by any \<open>rest\<close>, with or without a separator at the start of
  \<open>rest\<close>, the result is \<open>/Music\<close> followed by \<open>rest\<close>. The sibling directory
  \<open>/Users/berrio/MusicVideos\<close> is rewritten to \<open>/MusicVideos\<close>.
\<close>

theorem remap_path_plain_prefix:
  "normpath p = source_music s @ rest \<Longrightarrow> remap_path s p = ''/Music'' @ rest"
  by (simp add: remap_path_def)

theorem remap_path_plain_prefix_witness:
  "normpath ''/Users/berrio/MusicVideos/t.mp3'' = source_music sync_ex @ ''Videos/t.mp3''
   \<and> remap_path sync_ex ''/Users/berrio/MusicVideos/t.mp3'' = ''/MusicVideos/t.mp3''"
proof -
  have h: "normpath ''/Users/berrio/MusicVideos/t.mp3'' = source_music sync_ex @ ''Videos/t.mp3''"
    by (simp add: normpath_def norm_step_def sync_ex_def)
  from remap_path_plain_prefix [OF h] h show ?thesis
    by simp
qed

section \<open>The constructor\<close>

text \<open>
  Claim C10. The crate prefix of the sync object is the value of the environment variable
  \<open>crate_prefix\<close> when it is set, also to the empty string, and the constructor argument
  only when it is unset.
\<close>

theorem crate_prefix_env_overrides:
  "crate_prefix (SeratoMetadataSync_init env arg) =
     (case env ''crate_prefix'' of Some v \<Rightarrow> v | None \<Rightarrow> arg)"
  by (simp add: SeratoMetadataSync_init_def getenv_def split: option.split)

theorem crate_prefix_env_overrides_witness:
  "crate_prefix (SeratoMetadataSync_init [''crate_prefix'' \<mapsto> ''ENV_''] ''ARG_'') = ''ENV_''
   \<and> crate_prefix (SeratoMetadataSync_init [''crate_prefix'' \<mapsto> ''''] ''ARG_'') = ''''
   \<and> crate_prefix (SeratoMetadataSync_init Map.empty ''ARG_'') = ''ARG_''"
  using crate_prefix_env_overrides [of "[''crate_prefix'' \<mapsto> ''ENV_'']" "''ARG_''"]
        crate_prefix_env_overrides [of "[''crate_prefix'' \<mapsto> '''']" "''ARG_''"]
        crate_prefix_env_overrides [of Map.empty "''ARG_''"]
  by simp

text \<open>
  Claim C7, as amended. When \<open>target\<close> is absent from the environment, the constructor of
  the sync flow does not fail: the destination drive root is \<open>/Volumes/sandisk\<close>, and the
  run is the run with \<open>target\<close> set to that value. The constructor of the backup flow is the
  one that raises.
\<close>

theorem target_default:
  "env ''target'' = None \<Longrightarrow>
     target_drive (SeratoMetadataSync_init env arg) = ''/Volumes/sandisk''
   \<and> main env fs = main (env(''target'' \<mapsto> ''/Volumes/sandisk'')) fs
   \<and> SeratoBackup_init env = Inl ValueError"
  by (auto simp: SeratoMetadataSync_init_def getenv_def main_def SeratoBackup_init_def Let_def
           split: option.splits)

theorem target_default_witness:
  "Map.empty ''target'' = (None :: string option)
   \<and> target_drive (SeratoMetadataSync_init Map.empty []) = ''/Volumes/sandisk''
   \<and> main Map.empty fs_defaults = main [''target'' \<mapsto> ''/Volumes/sandisk''] fs_defaults
   \<and> SeratoBackup_init Map.empty = Inl ValueError"
  using target_default [of Map.empty "[]" fs_defaults]
  by simp

text \<open>
  Claim C7 as stated fails: with an empty environment and a library at the default places,
  the run exits with code 0 and has removed the old metadata of the destination.
\<close>

theorem target_absent_counterexample:
  "Map.empty ''target'' = (None :: string option)
   \<and> snd (snd (main Map.empty fs_defaults)) = 0
   \<and> is_dir fs_defaults [''Volumes'', ''sandisk'', ''Music'', ''_Serato_'']
   \<and> \<not> path_exists (fst (main Map.empty fs_defaults)) [''Volumes'', ''sandisk'', ''Music'', ''_Serato_'']"
proof -
  have a: "snd (snd (main Map.empty fs_defaults)) = 0"
    by code_simp
  have b: "is_dir fs_defaults [''Volumes'', ''sandisk'', ''Music'', ''_Serato_'']"
    by code_simp
  have c: "\<not> path_exists (fst (main Map.empty fs_defaults)) [''Volumes'', ''sandisk'', ''Music'', ''_Serato_'']"
    by code_simp
  from a b c show ?thesis
    by simp
qed

section \<open>Validation\<close>

text \<open>
  Claim C6. When the source metadata directory or the destination music directory is absent,
  \<open>sync_all\<close> raises \<open>FileNotFoundError\<close>, prints no outcome and leaves the filesystem as
  it was, the destination metadata tree included.
\<close>

theorem validation_failure_no_mutation:
  "\<not> path_exists fs (source_serato s) \<or> \<not> path_exists fs (target_music s) \<Longrightarrow>
   sync_all s fs = (fs, [], Inl FileNotFoundError)"
  by (auto simp: sync_all_def validate_paths_def)

theorem validation_failure_no_mutation_witness:
  "\<not> path_exists fs_no_source (source_serato sync_ex)
   \<and> is_dir fs_no_source (target_serato sync_ex)
   \<and> sync_all sync_ex fs_no_source = (fs_no_source, [], Inl FileNotFoundError)"
proof -
  have h: "\<not> path_exists fs_no_source (source_serato sync_ex)"
    by code_simp
  have d: "is_dir fs_no_source (target_serato sync_ex)"
    by code_simp
  from h have "\<not> path_exists fs_no_source (source_serato sync_ex)
                 \<or> \<not> path_exists fs_no_source (target_music sync_ex)"
    by (rule disjI1)
  from validation_failure_no_mutation [OF this] h d show ?thesis
    by simp
qed

section \<open>The database\<close>

lemma write_file_lookup:
  "write_file fs p d = Inr fs' \<Longrightarrow> lookup fs' p = Some (File d)"
  by (auto simp: write_file_def lookup_def update_conv' split: option.splits node.splits if_splits)

lemma sync_database_done:
  assumes "sync_database s fs = (fs', evs)" and "Done ''database V2'' \<in> set evs"
  shows "\<exists>src fs1. load DatabaseV2 fs (source_serato s @ [''database V2'']) = Inr src
           \<and> mkdir_parents fs (target_serato s) = (fs1, None)
           \<and> save DatabaseV2 fs1 (target_serato s @ [''database V2''])
                 (map (modify_track_db s) src) = Inr fs'"
  using assms
  by (auto simp: sync_database_def Let_def
           split: if_splits sum.splits prod.splits option.splits)

text \<open>
  Claim C3. When \<open>sync_database\<close> reports the database as written, the destination database
  holds one track record for every record of the source database, and the played flag of
  every one of them is false, whatever the flag was at the source.
\<close>

theorem sync_database_resets_played:
  assumes "Done ''database V2'' \<in> set (snd (sync_database s fs))"
  shows "\<exists>src dst. load DatabaseV2 fs (source_serato s @ [''database V2'']) = Inr src
           \<and> lookup (fst (sync_database s fs)) (target_serato s @ [''database V2''])
               = Some (File (Artifact DatabaseV2 dst))
           \<and> length dst = length src
           \<and> (\<forall>t \<in> set dst. \<not> played t)"
proof -
  obtain fs' evs where run: "sync_database s fs = (fs', evs)"
    by (cases "sync_database s fs")
  with assms have "Done ''database V2'' \<in> set evs"
    by simp
  from sync_database_done [OF run this] obtain src fs1
    where src: "load DatabaseV2 fs (source_serato s @ [''database V2'']) = Inr src"
      and saved: "save DatabaseV2 fs1 (target_serato s @ [''database V2''])
                    (map (modify_track_db s) src) = Inr fs'"
    by blast
  let ?dst = "map (modify_track_db s) src"
  from saved have "lookup fs' (target_serato s @ [''database V2''])
                     = Some (File (Artifact DatabaseV2 ?dst))"
    unfolding save_def by (rule write_file_lookup)
  moreover have "length ?dst = length src"
    by simp
  moreover have "\<forall>t \<in> set ?dst. \<not> played t"
    by (simp add: modify_track_db_def)
  ultimately show ?thesis
    using src run by auto
qed

theorem sync_database_resets_played_witness:
  "Done ''database V2'' \<in> set (snd (sync_database sync_ex fs_database_only))
   \<and> load DatabaseV2 fs_database_only (source_serato sync_ex @ [''database V2''])
       = Inr [track_a, track_b]
   \<and> map played [track_a, track_b] = [True, False]
   \<and> (\<exists>dst. lookup (fst (sync_database sync_ex fs_database_only))
                (target_serato sync_ex @ [''database V2''])
              = Some (File (Artifact DatabaseV2 dst))
            \<and> map played dst = [False, False])"
proof -
  have h: "Done ''database V2'' \<in> set (snd (sync_database sync_ex fs_database_only))"
    by code_simp
  have l: "load DatabaseV2 fs_database_only (source_serato sync_ex @ [''database V2''])
             = Inr [track_a, track_b]"
    by code_simp
  have p: "map played [track_a, track_b] = [True, False]"
    by (simp add: track_a_def track_b_def)
  from sync_database_resets_played [OF h] obtain src dst
    where src: "load DatabaseV2 fs_database_only (source_serato sync_ex @ [''database V2''])
                  = Inr src"
      and dst: "lookup (fst (sync_database sync_ex fs_database_only))
                  (target_serato sync_ex @ [''database V2''])
                = Some (File (Artifact DatabaseV2 dst))"
      and same: "length dst = length src"
      and reset: "\<forall>t \<in> set dst. \<not> played t"
    by blast
  from src l have "src = [track_a, track_b]"
    by simp
  with same have "length dst = 2"
    by simp
  then obtain x y where "dst = [x, y]"
    by (auto simp: numeral_2_eq_2 length_Suc_conv)
  with reset have "map played dst = [False, False]"
    by simp
  with dst have "\<exists>dst. lookup (fst (sync_database sync_ex fs_database_only))
                         (target_serato sync_ex @ [''database V2''])
                       = Some (File (Artifact DatabaseV2 dst))
                     \<and> map played dst = [False, False]"
    by (intro exI conjI)
  with h l p show ?thesis
    by (intro conjI)
qed

section \<open>Running the sync twice\<close>

lemma map_of_outside:
  "map_of (outside T fs) q = (if prefix T q then None else map_of fs q)"
  by (induction fs) (auto simp: outside_def)

lemma lookup_outside:
  "lookup (outside T fs) q
     = (if q = [] then Some Dir else if prefix T q then None else lookup fs q)"
  by (simp add: lookup_def map_of_outside)

lemma keys_outside:
  "fst ` set (outside T fs) = {q \<in> fst ` set fs. \<not> prefix T q}"
  by (auto simp: outside_def)

lemma outside_outside:
  "outside T (outside T fs) = outside T fs"
  by (simp add: outside_def)

lemma tree_nonempty:
  "tree fs \<Longrightarrow> q \<in> fst ` set fs \<Longrightarrow> q \<noteq> []"
  by (auto simp: tree_def)

lemma tree_parent:
  "tree fs \<Longrightarrow> q \<in> fst ` set fs \<Longrightarrow> is_dir fs (butlast q)"
  by (auto simp: tree_def)

lemma key_exists:
  "q \<in> fst ` set fs \<Longrightarrow> path_exists fs q"
  by (auto simp: path_exists_def lookup_def dest: weak_map_of_SomeI)

lemma exists_key:
  "path_exists fs q \<Longrightarrow> q \<noteq> [] \<Longrightarrow> q \<in> fst ` set fs"
  by (auto simp: path_exists_def lookup_def map_of_eq_None_iff)

lemma tree_outside:
  assumes "tree fs"
  shows "tree (outside T fs)"
  unfolding tree_def
proof (intro conjI ballI)
  from assms show "distinct (map fst (outside T fs))"
    by (simp add: tree_def outside_def distinct_map_filter)
next
  fix p
  assume "p \<in> set (map fst (outside T fs))"
  then have "p \<in> fst ` set (outside T fs)"
    by simp
  then have key: "p \<in> fst ` set fs" and out: "\<not> prefix T p"
    by (simp_all add: keys_outside)
  from assms key show "p \<noteq> []"
    by (rule tree_nonempty)
  from assms key have dir: "is_dir fs (butlast p)"
    by (rule tree_parent)
  have "prefix (butlast p) p"
    by (rule prefixeq_butlast)
  with out have "\<not> prefix T (butlast p)"
    by (auto dest: prefix_order.trans)
  with dir show "is_dir (outside T fs) (butlast p)"
    by (simp add: is_dir_def lookup_outside)
qed

lemma prefixes_exist:
  "tree fs \<Longrightarrow> q \<in> fst ` set fs \<Longrightarrow> prefix p q \<Longrightarrow> path_exists fs p"
proof (induction q rule: rev_induct)
  case Nil
  then show ?case
    by (simp add: path_exists_def lookup_def)
next
  case (snoc x q')
  from snoc.prems(3) consider "p = q' @ [x]" | "prefix p q'"
    by (auto simp: prefix_snoc)
  then show ?case
  proof cases
    case 1
    with snoc.prems(2) show ?thesis
      by (simp add: key_exists)
  next
    case 2
    from snoc.prems(1,2) have dir: "is_dir fs q'"
      using tree_parent [of fs "q' @ [x]"] by simp
    show ?thesis
    proof (cases "q' = []")
      case True
      with 2 show ?thesis
        by (simp add: path_exists_def lookup_def)
    next
      case False
      with dir have "q' \<in> fst ` set fs"
        using exists_key [of fs q'] by (simp add: is_dir_def path_exists_def)
      with snoc.IH snoc.prems(1) 2 show ?thesis
        by simp
    qed
  qed
qed

lemma no_orphans:
  assumes "tree fs" and "\<not> path_exists fs T"
  shows "outside T fs = fs"
proof -
  have "\<not> prefix T q" if "q \<in> fst ` set fs" for q
    using prefixes_exist [OF assms(1) that, of T] assms(2) by blast
  then have "\<forall>e \<in> set fs. \<not> prefix T (fst e)"
    by auto
  then show ?thesis
    unfolding outside_def by (simp add: case_prod_beta)
qed

lemma lookup_snoc_keep:
  "lookup fs r = Some v \<Longrightarrow> lookup (fs @ [(p, n)]) r = Some v"
  by (auto simp: lookup_def map_add_Some_iff)

lemma tree_snoc:
  assumes "tree fs" and "\<not> path_exists fs p" and "is_dir fs (butlast p)"
  shows "tree (fs @ [(p, n)])"
  unfolding tree_def
proof (intro conjI ballI)
  from assms(2) have "p \<notin> fst ` set fs"
    using key_exists [of p fs] by blast
  with assms(1) show "distinct (map fst (fs @ [(p, n)]))"
    by (simp add: tree_def)
next
  fix q
  assume "q \<in> set (map fst (fs @ [(p, n)]))"
  then consider "q = p" | "q \<in> fst ` set fs"
    by force
  then have "q \<noteq> [] \<and> is_dir fs (butlast q)"
  proof cases
    case 1
    from assms(2) have "p \<noteq> []"
      by (auto simp: path_exists_def lookup_def)
    with 1 assms(3) show ?thesis by simp
  next
    case 2
    with assms(1) show ?thesis
      by (simp add: tree_nonempty tree_parent)
  qed
  then show "q \<noteq> []" and "is_dir (fs @ [(p, n)]) (butlast q)"
    by (simp_all add: is_dir_def lookup_snoc_keep)
qed

lemma tree_os_mkdir:
  "tree fs \<Longrightarrow> os_mkdir fs p = Inr fs' \<Longrightarrow> tree fs'"
  by (auto simp: os_mkdir_def is_dir_def intro: tree_snoc
           split: if_splits option.splits node.splits)

lemma tree_mkdir_exist_ok:
  "tree fs \<Longrightarrow> mkdir_exist_ok fs p = (fs', r) \<Longrightarrow> tree fs'"
  by (auto simp: mkdir_exist_ok_def split: sum.splits if_splits dest: tree_os_mkdir)

lemma tree_mkdir_parents:
  "tree fs \<Longrightarrow> mkdir_parents fs p = (fs', r) \<Longrightarrow> tree fs'"
proof (induction fs p arbitrary: fs' r rule: mkdir_parents.induct)
  case (1 fs p)
  show ?case
  proof (cases "os_mkdir fs p")
    case (Inr fs1)
    with "1.prems" show ?thesis
      by (auto simp: mkdir_parents.simps [of fs p] dest: tree_os_mkdir)
  next
    case (Inl e1)
    note first = Inl
    show ?thesis
    proof (cases "e1 = FileNotFoundError \<and> p \<noteq> []")
      case False
      with "1.prems" first show ?thesis
        by (auto simp: mkdir_parents.simps [of fs p] split: if_splits)
    next
      case True
      obtain fs2 r2 where parent: "mkdir_parents fs (butlast p) = (fs2, r2)"
        by (cases "mkdir_parents fs (butlast p)")
      from "1.IH" [OF first _ _ "1.prems"(1) parent] True have t2: "tree fs2"
        by simp
      show ?thesis
      proof (cases r2)
        case None
        with "1.prems" first True parent have "mkdir_exist_ok fs2 p = (fs', r)"
          by (simp add: mkdir_parents.simps [of fs p])
        with t2 show ?thesis by (rule tree_mkdir_exist_ok)
      next
        case (Some e2)
        with "1.prems" first True parent have "fs' = fs2"
          by (simp add: mkdir_parents.simps [of fs p])
        with t2 show ?thesis by simp
      qed
    qed
  qed
qed

lemma tree_write_file:
  assumes "tree fs" and "write_file fs p d = Inr fs'"
  shows "tree fs'"
proof -
  from assms(2) have nodir: "lookup fs p \<noteq> Some Dir"
    and parent: "lookup fs (butlast p) = Some Dir"
    and fs': "fs' = AList.update p (File d) fs"
    by (auto simp: write_file_def split: option.splits node.splits)
  from nodir have p: "p \<noteq> []"
    by (auto simp: lookup_def)
  have look: "lookup fs' r = (if r = p then Some (File d) else lookup fs r)" for r
    using p by (simp add: fs' lookup_def update_conv')
  show ?thesis
    unfolding tree_def
  proof (intro conjI ballI)
    from assms(1) show "distinct (map fst fs')"
      by (simp add: fs' tree_def distinct_update)
  next
    fix q
    assume "q \<in> set (map fst fs')"
    then have "q \<in> fst ` set (AList.update p (File d) fs)"
      by (simp add: fs')
    then consider "q = p" | "q \<in> fst ` set fs"
      unfolding dom_update by blast
    then have ok: "q \<noteq> [] \<and> lookup fs (butlast q) = Some Dir"
    proof cases
      case 1
      with p parent show ?thesis by simp
    next
      case 2
      with assms(1) show ?thesis
        using tree_nonempty [of fs q] tree_parent [of fs q] by (simp add: is_dir_def)
    qed
    then show "q \<noteq> []"
      by simp
    from ok nodir have "butlast q \<noteq> p"
      by auto
    with ok show "is_dir fs' (butlast q)"
      by (simp add: is_dir_def look)
  qed
qed

lemma tree_copy2:
  "tree fs \<Longrightarrow> copy2 fs src dst = Inr fs' \<Longrightarrow> tree fs'"
  by (auto simp: copy2_def Let_def split: if_splits option.splits node.splits
           dest: tree_write_file)

lemma tree_sync_file:
  "tree fs \<Longrightarrow> sync_file k s target_dir fs crate_file = (fs', ev) \<Longrightarrow> tree fs'"
  by (auto simp: sync_file_def save_def Let_def split: sum.splits dest: tree_write_file)

lemma tree_sync_files:
  "tree fs \<Longrightarrow> sync_files k s target_dir fs crate_files = (fs', evs) \<Longrightarrow> tree fs'"
proof (induction crate_files arbitrary: fs fs' evs)
  case Nil
  then show ?case by simp
next
  case (Cons f rest)
  obtain fs1 ev where one: "sync_file k s target_dir fs f = (fs1, ev)"
    by (cases "sync_file k s target_dir fs f")
  obtain fs2 evs2 where more: "sync_files k s target_dir fs1 rest = (fs2, evs2)"
    by (cases "sync_files k s target_dir fs1 rest")
  from Cons.prems(1) one have "tree fs1"
    by (rule tree_sync_file)
  then have "tree fs2"
    using more by (rule Cons.IH)
  with Cons.prems(2) one more show ?case
    by simp
qed

lemma tree_sync_crates:
  "tree fs \<Longrightarrow> sync_crates s fs = (fs', evs, r) \<Longrightarrow> tree fs'"
  by (auto simp: sync_crates_def Let_def split: if_splits prod.splits option.splits
           dest: tree_mkdir_parents tree_sync_files)

lemma tree_sync_smart_crates:
  "tree fs \<Longrightarrow> sync_smart_crates s fs = (fs', evs, r) \<Longrightarrow> tree fs'"
  by (auto simp: sync_smart_crates_def Let_def split: if_splits prod.splits option.splits
           dest: tree_mkdir_parents tree_sync_files)

lemma tree_sync_database:
  "tree fs \<Longrightarrow> sync_database s fs = (fs', evs) \<Longrightarrow> tree fs'"
  by (auto simp: sync_database_def save_def Let_def
           split: if_splits sum.splits prod.splits option.splits
           dest: tree_mkdir_parents tree_write_file)

lemma tree_copy_files:
  "tree fs \<Longrightarrow> copy_files s fs copied names = (fs', evs, r) \<Longrightarrow> tree fs'"
proof (induction names arbitrary: fs copied fs' evs r)
  case Nil
  then show ?case by simp
next
  case (Cons filename rest)
  show ?case
  proof (cases "path_exists fs (pjoin (source_serato s) filename)")
    case False
    with Cons.prems(2) have "copy_files s fs copied rest = (fs', evs, r)"
      by simp
    with Cons.prems(1) show ?thesis by (rule Cons.IH)
  next
    case True
    show ?thesis
    proof (cases "copy2 fs (pjoin (source_serato s) filename) (pjoin (target_serato s) filename)")
      case (Inl e)
      with Cons.prems True show ?thesis
        by simp
    next
      case (Inr fs1)
      with Cons.prems(1) have t1: "tree fs1"
        by (rule tree_copy2)
      obtain fs2 evs2 r2 where rest: "copy_files s fs1 (copied + 1) rest = (fs2, evs2, r2)"
        by (cases "copy_files s fs1 (copied + 1) rest")
      from t1 rest have "tree fs2"
        by (rule Cons.IH)
      with Cons.prems(2) True Inr rest show ?thesis
        by simp
    qed
  qed
qed

lemma tree_sync_components:
  assumes "tree fs" and "sync_components s fs = (fs', evs, r)"
  shows "tree fs'"
proof -
  obtain fs1 ev1 r1 where a: "sync_crates s fs = (fs1, ev1, r1)"
    by (cases "sync_crates s fs")
  obtain fs2 ev2 r2 where b: "sync_smart_crates s fs1 = (fs2, ev2, r2)"
    by (cases "sync_smart_crates s fs1")
  obtain fs3 ev3 where c: "sync_database s fs2 = (fs3, ev3)"
    by (cases "sync_database s fs2")
  obtain fs4 ev4 r4 where d: "sync_other_files s fs3 = (fs4, ev4, r4)"
    by (cases "sync_other_files s fs3")
  from assms(1) a have t1: "tree fs1"
    by (rule tree_sync_crates)
  from t1 b have t2: "tree fs2"
    by (rule tree_sync_smart_crates)
  from t2 c have t3: "tree fs3"
    by (rule tree_sync_database)
  from t3 d have t4: "tree fs4"
    unfolding sync_other_files_def by (rule tree_copy_files)
  from assms(2) a b c d have "fs' = fs1 \<or> fs' = fs2 \<or> fs' = fs4"
    by (auto simp: sync_components_def split: sum.splits)
  with t1 t2 t4 show ?thesis
    by auto
qed

lemma clear_target_outside:
  assumes "tree fs" and "clear_target s fs = Inr fs'"
  shows "fs' = outside (target_serato s) fs"
proof (cases "path_exists fs (target_serato s)")
  case True
  with assms(2) show ?thesis
    by (auto simp: clear_target_def rmtree_def split: option.splits node.splits)
next
  case False
  with assms(2) have "fs' = fs"
    by (simp add: clear_target_def)
  with no_orphans [OF assms(1) False] show ?thesis
    by simp
qed

lemma sync_all_cases:
  assumes "tree fs"
  shows "fst (sync_all s fs) = fs
         \<or> sync_all s fs = sync_components s (outside (target_serato s) fs)"
proof (cases "validate_paths s fs")
  case (Inl e)
  then show ?thesis
    by (simp add: sync_all_def)
next
  case (Inr u)
  show ?thesis
  proof (cases "clear_target s fs")
    case (Inl e)
    with Inr show ?thesis
      by (simp add: sync_all_def)
  next
    case cleared: (Inr fs')
    with assms have "fs' = outside (target_serato s) fs"
      by (rule clear_target_outside)
    with Inr cleared show ?thesis
      by (simp add: sync_all_def)
  qed
qed

text \<open>
  Claim C5. Run \<open>sync_all\<close> twice in a row. When the first run has left everything outside
  the destination metadata tree as it found it (the source is unchanged), the second run
  leaves the whole filesystem, and so the destination metadata tree, exactly as the first
  did. The reason is the clearing step: where it succeeds, nothing at or below the
  destination metadata directory is left when the syncers start to write.
\<close>

theorem sync_all_idempotent:
  assumes "tree fs"
    and "outside (target_serato s) (fst (sync_all s fs)) = outside (target_serato s) fs"
  shows "fst (sync_all s (fst (sync_all s fs))) = fst (sync_all s fs)
         \<and> (\<forall>fs0 q. clear_target s fs = Inr fs0 \<longrightarrow> prefix (target_serato s) q
                \<longrightarrow> \<not> path_exists fs0 q)"
proof
  let ?fs1 = "fst (sync_all s fs)"
  from sync_all_cases [OF assms(1), of s]
  show "fst (sync_all s ?fs1) = ?fs1"
  proof
    assume "?fs1 = fs"
    then show ?thesis
      by simp
  next
    assume first: "sync_all s fs = sync_components s (outside (target_serato s) fs)"
    obtain evs r where run: "sync_components s (outside (target_serato s) fs) = (?fs1, evs, r)"
      by (cases "sync_components s (outside (target_serato s) fs)") (simp add: first)
    from assms(1) have "tree (outside (target_serato s) fs)"
      by (rule tree_outside)
    then have "tree ?fs1"
      using run by (rule tree_sync_components)
    from sync_all_cases [OF this, of s] show ?thesis
    proof
      assume "fst (sync_all s ?fs1) = ?fs1"
      then show ?thesis .
    next
      assume "sync_all s ?fs1 = sync_components s (outside (target_serato s) ?fs1)"
      with assms(2) first show ?thesis
        by simp
    qed
  qed
next
  show "\<forall>fs0 q. clear_target s fs = Inr fs0 \<longrightarrow> prefix (target_serato s) q
          \<longrightarrow> \<not> path_exists fs0 q"
  proof (intro allI impI)
    fix fs0 q
    assume "clear_target s fs = Inr fs0" and below: "prefix (target_serato s) q"
    with assms(1) have fs0: "fs0 = outside (target_serato s) fs"
      by (simp add: clear_target_outside)
    have "target_serato s \<noteq> []"
      by (simp add: target_serato_def)
    with below have "q \<noteq> []"
      by auto
    with below show "\<not> path_exists fs0 q"
      by (simp add: fs0 path_exists_def lookup_outside)
  qed
qed

theorem sync_all_idempotent_witness:
  "tree fs_library
   \<and> outside (target_serato sync_ex) (fst (sync_all sync_ex fs_library))
       = outside (target_serato sync_ex) fs_library
   \<and> snd (snd (sync_all sync_ex fs_library)) = Inr (3, 1, 1)
   \<and> path_exists fs_library (tgt_dir @ [''stale.crate''])
   \<and> \<not> path_exists (fst (sync_all sync_ex fs_library)) (tgt_dir @ [''stale.crate''])
   \<and> fst (sync_all sync_ex (fst (sync_all sync_ex fs_library)))
       = fst (sync_all sync_ex fs_library)"
proof -
  have t: "tree fs_library"
    by code_simp
  have u: "outside (target_serato sync_ex) (fst (sync_all sync_ex fs_library))
             = outside (target_serato sync_ex) fs_library"
    by code_simp
  have r: "snd (snd (sync_all sync_ex fs_library)) = Inr (3, 1, 1)"
    by code_simp
  have o: "path_exists fs_library (tgt_dir @ [''stale.crate''])"
    by code_simp
  have g: "\<not> path_exists (fst (sync_all sync_ex fs_library)) (tgt_dir @ [''stale.crate''])"
    by code_simp
  from sync_all_idempotent [OF t u] t u r o g show ?thesis
    by simp
qed

section \<open>Preference files without a destination directory\<close>

lemma pjoin_preference:
  "f \<in> set files_to_copy \<Longrightarrow> pjoin p f = p @ [f]"
  by (auto simp: files_to_copy_def)

lemma target_serato_nonempty:
  "target_serato s \<noteq> []"
  by (simp add: target_serato_def)

lemma lookup_below_removed:
  assumes "outside T fs = fs" and "T \<noteq> []" and "prefix T q"
  shows "lookup fs q = None"
proof -
  from assms(2,3) have "q \<noteq> []"
    by auto
  then have "lookup fs q = map_of (outside T fs) q"
    by (simp add: lookup_def assms(1))
  with assms(3) show ?thesis
    by (simp add: map_of_outside)
qed

lemma copy2_without_target:
  assumes "outside T fs = fs" and "T \<noteq> []" and "S \<noteq> T"
  shows "\<exists>e. copy2 fs (S @ [f]) (T @ [f]) = Inl e"
proof -
  have dst: "lookup fs (T @ [f]) = None"
    using assms(1,2) by (rule lookup_below_removed) simp
  have dir: "lookup fs T = None"
    using assms(1,2) by (rule lookup_below_removed) simp
  from dst dir assms(3) show ?thesis
    by (simp add: copy2_def is_dir_def write_file_def split: option.splits node.splits)
qed

lemma copy_files_without_target:
  assumes "outside (target_serato s) fs = fs"
    and "source_serato s \<noteq> target_serato s"
    and "set names \<subseteq> set files_to_copy"
    and "\<exists>f \<in> set names. path_exists fs (source_serato s @ [f])"
  shows "\<exists>e. copy_files s fs copied names = (fs, [], Inl e)"
  using assms(3,4)
proof (induction names)
  case Nil
  then show ?case by simp
next
  case (Cons filename rest)
  from Cons.prems(1) have src: "pjoin (source_serato s) filename = source_serato s @ [filename]"
    and tgt: "pjoin (target_serato s) filename = target_serato s @ [filename]"
    by (simp_all add: pjoin_preference)
  show ?case
  proof (cases "path_exists fs (source_serato s @ [filename])")
    case True
    from copy2_without_target [OF assms(1) target_serato_nonempty assms(2), of filename]
    obtain e where "copy2 fs (source_serato s @ [filename]) (target_serato s @ [filename]) = Inl e"
      by blast
    with True src tgt show ?thesis
      by simp
  next
    case False
    with Cons.prems have "set rest \<subseteq> set files_to_copy"
      and "\<exists>f \<in> set rest. path_exists fs (source_serato s @ [f])"
      by auto
    then have "\<exists>e. copy_files s fs copied rest = (fs, [], Inl e)"
      by (rule Cons.IH)
    with False src show ?thesis
      by simp
  qed
qed

lemma preference_outside_target:
  assumes "f \<in> set files_to_copy" and "\<not> prefix (target_serato s) (source_serato s)"
  shows "\<not> prefix (target_serato s) (source_serato s @ [f])"
proof
  assume "prefix (target_serato s) (source_serato s @ [f])"
  with assms(2) have "target_serato s = source_serato s @ [f]"
    by (simp add: prefix_snoc)
  then have "last (target_serato s) = f"
    by simp
  then have "f = ''_Serato_''"
    by (simp add: target_serato_def)
  with assms(1) show False
    by (simp add: files_to_copy_def)
qed

text \<open>
  Claim C9. \<open>sync_other_files\<close> never creates the destination metadata directory. In a run
  that passes validation, with no \<open>Subcrates\<close> directory, no \<open>SmartCrates\<close> directory and no
  database at the source, no earlier step creates it either; when one of the three preference
  files exists at the source, the three categories are reported as absent, the copy of that
  file raises, and the run ends with the exception, the destination metadata directory
  absent. The source metadata directory is taken to lie outside the destination metadata
  tree, which the run removes first, and the destination metadata path not to be a plain file.
\<close>

theorem preference_copy_aborts:
  assumes "tree fs"
    and "path_exists fs (source_serato s)"
    and "path_exists fs (target_music s)"
    and "path_exists fs (target_serato s) \<longrightarrow> is_dir fs (target_serato s)"
    and "\<not> prefix (target_serato s) (source_serato s)"
    and "\<not> path_exists fs (source_serato s @ [''Subcrates''])"
    and "\<not> path_exists fs (source_serato s @ [''SmartCrates''])"
    and "\<not> path_exists fs (source_serato s @ [''database V2''])"
    and "\<exists>f \<in> set files_to_copy. path_exists fs (source_serato s @ [f])"
  shows "\<exists>e. sync_all s fs
               = (outside (target_serato s) fs,
                  [Not_found ''Subcrates'', Not_found ''SmartCrates'', Not_found ''database V2''],
                  Inl e)
             \<and> \<not> is_dir (outside (target_serato s) fs) (target_serato s)"
proof -
  let ?T = "target_serato s" and ?S = "source_serato s"
  let ?fs0 = "outside ?T fs"
  have cleared: "clear_target s fs = Inr ?fs0"
  proof (cases "path_exists fs ?T")
    case True
    with assms(4) show ?thesis
      by (simp add: clear_target_def rmtree_def is_dir_def)
  next
    case False
    with no_orphans [OF assms(1) False] show ?thesis
      by (simp add: clear_target_def)
  qed
  have keep: "path_exists fs q" if "path_exists ?fs0 q" for q
  proof (cases "q = []")
    case True
    then show ?thesis
      by (simp add: path_exists_def lookup_def)
  next
    case False
    with that show ?thesis
      by (auto simp: path_exists_def lookup_outside split: if_splits)
  qed
  from assms(6) keep have "\<not> path_exists ?fs0 (?S @ [''Subcrates''])"
    by blast
  then have a: "sync_crates s ?fs0 = (?fs0, [Not_found ''Subcrates''], Inr 0)"
    by (simp add: sync_crates_def Let_def)
  from assms(7) keep have "\<not> path_exists ?fs0 (?S @ [''SmartCrates''])"
    by blast
  then have b: "sync_smart_crates s ?fs0 = (?fs0, [Not_found ''SmartCrates''], Inr 0)"
    by (simp add: sync_smart_crates_def Let_def)
  from assms(8) keep have "\<not> path_exists ?fs0 (?S @ [''database V2''])"
    by blast
  then have c: "sync_database s ?fs0 = (?fs0, [Not_found ''database V2''])"
    by (simp add: sync_database_def Let_def)
  from assms(9) obtain f where f: "f \<in> set files_to_copy" and there: "path_exists fs (?S @ [f])"
    by blast
  from f assms(5) have "\<not> prefix ?T (?S @ [f])"
    by (rule preference_outside_target)
  with there have "path_exists ?fs0 (?S @ [f])"
    by (simp add: path_exists_def lookup_outside)
  with f have some: "\<exists>f \<in> set files_to_copy. path_exists ?fs0 (?S @ [f])"
    by blast
  from assms(5) have differ: "?S \<noteq> ?T"
    by auto
  from copy_files_without_target [OF outside_outside differ subset_refl some, of 0]
  obtain e where d: "sync_other_files s ?fs0 = (?fs0, [], Inl e)"
    unfolding sync_other_files_def by blast
  from assms(2,3) cleared a b c d
  have "sync_all s fs
          = (?fs0, [Not_found ''Subcrates'', Not_found ''SmartCrates'', Not_found ''database V2''],
             Inl e)"
    by (simp add: sync_all_def validate_paths_def sync_components_def)
  moreover have "\<not> is_dir ?fs0 ?T"
    by (simp add: is_dir_def lookup_outside target_serato_nonempty)
  ultimately show ?thesis
    by blast
qed

theorem preference_copy_aborts_witness:
  "tree fs_pref_stale
   \<and> path_exists fs_pref_stale (source_serato sync_ex)
   \<and> path_exists fs_pref_stale (target_music sync_ex)
   \<and> is_dir fs_pref_stale (target_serato sync_ex)
   \<and> \<not> prefix (target_serato sync_ex) (source_serato sync_ex)
   \<and> \<not> path_exists fs_pref_stale (source_serato sync_ex @ [''Subcrates''])
   \<and> \<not> path_exists fs_pref_stale (source_serato sync_ex @ [''SmartCrates''])
   \<and> \<not> path_exists fs_pref_stale (source_serato sync_ex @ [''database V2''])
   \<and> ''collapsed.pref'' \<in> set files_to_copy
   \<and> path_exists fs_pref_stale (source_serato sync_ex @ [''collapsed.pref''])
   \<and> sync_all sync_ex fs_pref_stale
       = (outside (target_serato sync_ex) fs_pref_stale,
          [Not_found ''Subcrates'', Not_found ''SmartCrates'', Not_found ''database V2''],
          Inl FileNotFoundError)
   \<and> \<not> is_dir (outside (target_serato sync_ex) fs_pref_stale) (target_serato sync_ex)"
proof -
  have h1: "tree fs_pref_stale"
    by code_simp
  have h2: "path_exists fs_pref_stale (source_serato sync_ex)"
    by code_simp
  have h3: "path_exists fs_pref_stale (target_music sync_ex)"
    by code_simp
  have h4: "is_dir fs_pref_stale (target_serato sync_ex)"
    by code_simp
  have h5: "\<not> prefix (target_serato sync_ex) (source_serato sync_ex)"
    by code_simp
  have h6: "\<not> path_exists fs_pref_stale (source_serato sync_ex @ [''Subcrates''])"
    by code_simp
  have h7: "\<not> path_exists fs_pref_stale (source_serato sync_ex @ [''SmartCrates''])"
    by code_simp
  have h8: "\<not> path_exists fs_pref_stale (source_serato sync_ex @ [''database V2''])"
    by code_simp
  have h9: "''collapsed.pref'' \<in> set files_to_copy"
    by code_simp
  have h10: "path_exists fs_pref_stale (source_serato sync_ex @ [''collapsed.pref''])"
    by code_simp
  have e: "snd (snd (sync_all sync_ex fs_pref_stale)) = Inl FileNotFoundError"
    by code_simp
  from h4 have h4': "path_exists fs_pref_stale (target_serato sync_ex)
                       \<longrightarrow> is_dir fs_pref_stale (target_serato sync_ex)"
    by simp
  from h9 h10 have h9': "\<exists>f \<in> set files_to_copy.
                           path_exists fs_pref_stale (source_serato sync_ex @ [f])"
    by blast
  from preference_copy_aborts [OF h1 h2 h3 h4' h5 h6 h7 h8 h9'] e
  have "sync_all sync_ex fs_pref_stale
          = (outside (target_serato sync_ex) fs_pref_stale,
             [Not_found ''Subcrates'', Not_found ''SmartCrates'', Not_found ''database V2''],
             Inl FileNotFoundError)
        \<and> \<not> is_dir (outside (target_serato sync_ex) fs_pref_stale) (target_serato sync_ex)"
    by auto
  with h1 h2 h3 h4 h5 h6 h7 h8 h9 h10 show ?thesis
    by simp
qed

section \<open>Failures of single artifacts\<close>

text \<open>
  The name of a crate or smart-crate file is the last component of its path, and it keeps
  its extension in the name of the file written; so the loops write nothing at a path whose
  name does not end with the extension.
\<close>

lemma split_nonempty:
  "split c xs \<noteq> []"
  by (induction xs) (auto split: list.splits)

lemma split_no_separator:
  "c \<notin> set xs \<Longrightarrow> split c xs = [xs]"
  by (induction xs) auto

lemma split_last_suffix:
  "c \<notin> set ext \<Longrightarrow> suffix ext (last (split c (zs @ ext)))"
proof (induction zs)
  case Nil
  then show ?case
    by (simp add: split_no_separator)
next
  case (Cons z zs)
  obtain w ws where parts: "split c (zs @ ext) = w # ws"
    using split_nonempty [of c "zs @ ext"] by (cases "split c (zs @ ext)") auto
  from Cons have last: "suffix ext (last (w # ws))"
    by (simp add: parts)
  show ?case
  proof (cases "z = c")
    case True
    with last parts show ?thesis
      by simp
  next
    case False
    with last parts show ?thesis
      by (cases "ws = []") (auto intro: suffix_ConsI)
  qed
qed

lemma filter_keeps_last:
  assumes "xs \<noteq> []" and "P (last xs)"
  shows "filter P xs \<noteq> [] \<and> last (filter P xs) = last xs"
proof -
  from assms(1) have "xs = butlast xs @ [last xs]"
    by simp
  then have "filter P xs = filter P (butlast xs) @ filter P [last xs]"
    by (metis filter_append)
  with assms(2) show ?thesis
    by simp
qed

lemma Path_last_suffix:
  assumes "CHR ''/'' \<notin> set ext" and "2 \<le> length ext" and "suffix ext name"
  shows "Path name \<noteq> [] \<and> suffix ext (last (Path name))"
proof -
  from assms(3) obtain zs where name: "name = zs @ ext"
    by (auto simp: suffix_def)
  let ?parts = "split CHR ''/'' name"
  from assms(1) have end_: "suffix ext (last ?parts)"
    unfolding name by (rule split_last_suffix)
  then have "length ext \<le> length (last ?parts)"
    by (rule suffix_length_le)
  with assms(2) have "last ?parts \<noteq> [] \<and> last ?parts \<noteq> ''.''"
    by auto
  with filter_keeps_last [of ?parts "\<lambda>c. c \<noteq> [] \<and> c \<noteq> ''.''"] split_nonempty [of "CHR ''/''" name]
  have "Path name \<noteq> [] \<and> last (Path name) = last ?parts"
    by (simp add: Path_def)
  with end_ show ?thesis
    by simp
qed

lemma pjoin_last_suffix:
  assumes "CHR ''/'' \<notin> set ext" and "2 \<le> length ext" and "suffix ext name"
  shows "pjoin d name \<noteq> [] \<and> suffix ext (last (pjoin d name))"
  using Path_last_suffix [OF assms] by (simp add: pjoin_def)

lemma lookup_update_other:
  "q \<noteq> p \<Longrightarrow> lookup (AList.update p v fs) q = lookup fs q"
  by (simp add: lookup_def update_conv')

lemma write_file_lookup_other:
  "write_file fs p d = Inr fs' \<Longrightarrow> q \<noteq> p \<Longrightarrow> lookup fs' q = lookup fs q"
  by (auto simp: write_file_def lookup_update_other split: option.splits node.splits)

lemma sync_file_failed_unchanged:
  "snd (sync_file k s target_dir fs crate_file) = Failed name e
     \<Longrightarrow> fst (sync_file k s target_dir fs crate_file) = fs"
  by (auto simp: sync_file_def Let_def split: sum.splits)

lemma sync_file_lookup:
  assumes "CHR ''/'' \<notin> set ext" and "2 \<le> length ext"
    and "suffix ext (last crate_file)" and "\<not> suffix ext (last q)"
  shows "lookup (fst (sync_file k s target_dir fs crate_file)) q = lookup fs q"
proof -
  let ?new_name = "if crate_prefix s \<noteq> [] then crate_prefix s @ last crate_file
                   else last crate_file"
  from assms(3) have "suffix ext ?new_name"
    by (simp add: suffix_appendI)
  with assms(1,2) have "suffix ext (last (pjoin target_dir ?new_name))"
    using pjoin_last_suffix [of ext ?new_name target_dir] by simp
  with assms(4) have "q \<noteq> pjoin target_dir ?new_name"
    by auto
  then show ?thesis
    by (auto simp: sync_file_def save_def Let_def split: sum.splits
             dest: write_file_lookup_other)
qed

lemma sync_files_lookup:
  assumes "CHR ''/'' \<notin> set ext" and "2 \<le> length ext" and "\<not> suffix ext (last q)"
  shows "\<forall>f \<in> set crate_files. suffix ext (last f)
           \<Longrightarrow> lookup (fst (sync_files k s target_dir fs crate_files)) q = lookup fs q"
proof (induction crate_files arbitrary: fs)
  case Nil
  show ?case by simp
next
  case (Cons f rest)
  obtain fs1 ev where one: "sync_file k s target_dir fs f = (fs1, ev)"
    by (cases "sync_file k s target_dir fs f")
  obtain fs2 evs where more: "sync_files k s target_dir fs1 rest = (fs2, evs)"
    by (cases "sync_files k s target_dir fs1 rest")
  from Cons.prems have "suffix ext (last f)"
    by simp
  from sync_file_lookup [OF assms(1,2) this assms(3), of k s target_dir fs] one
  have "lookup fs1 q = lookup fs q"
    by simp
  moreover from Cons.IH [of fs1] Cons.prems more have "lookup fs2 q = lookup fs1 q"
    by simp
  ultimately show ?case
    by (simp add: one more)
qed

lemma glob_suffix:
  "\<forall>f \<in> set (glob fs d ext). suffix ext (last f)"
  by (simp add: glob_def)

lemma sync_files_append:
  "sync_files k s target_dir fs (xs @ ys)
     = (fst (sync_files k s target_dir (fst (sync_files k s target_dir fs xs)) ys),
        snd (sync_files k s target_dir fs xs)
          @ snd (sync_files k s target_dir (fst (sync_files k s target_dir fs xs)) ys))"
proof (induction xs arbitrary: fs)
  case Nil
  show ?case by simp
next
  case (Cons x xs)
  obtain fs1 ev where one: "sync_file k s target_dir fs x = (fs1, ev)"
    by (cases "sync_file k s target_dir fs x")
  show ?case
    by (simp add: one Cons.IH [of fs1] split: prod.splits)
qed

lemma sync_files_skip_failed:
  assumes "snd (sync_file k s target_dir (fst (sync_files k s target_dir fs pre)) f)
             = Failed name e"
  shows "name = last f
         \<and> sync_files k s target_dir fs (pre @ f # post)
             = (fst (sync_files k s target_dir fs (pre @ post)),
                snd (sync_files k s target_dir fs pre) @ Failed name e
                  # snd (sync_files k s target_dir (fst (sync_files k s target_dir fs pre)) post))"
proof -
  let ?fs1 = "fst (sync_files k s target_dir fs pre)"
  from assms have name: "name = last f"
    by (auto simp: sync_file_def Let_def split: sum.splits)
  from assms have same: "fst (sync_file k s target_dir ?fs1 f) = ?fs1"
    by (rule sync_file_failed_unchanged)
  with assms have one: "sync_file k s target_dir ?fs1 f = (?fs1, Failed name e)"
    by (cases "sync_file k s target_dir ?fs1 f") simp
  have "sync_files k s target_dir ?fs1 (f # post)
          = (fst (sync_files k s target_dir ?fs1 post),
             Failed name e # snd (sync_files k s target_dir ?fs1 post))"
    by (simp add: one split: prod.splits)
  with name show ?thesis
    by (simp add: sync_files_append [of k s target_dir fs pre])
qed

lemma lookup_snoc:
  "lookup (fs @ [(p, n)]) q
     = (if q = [] then Some Dir
        else case map_of fs q of Some v \<Rightarrow> Some v | None \<Rightarrow> if q = p then Some n else None)"
  by (auto simp: lookup_def map_add_def split: option.splits)

lemma os_mkdir_lookup:
  assumes "os_mkdir fs p = Inr fs'"
  shows "lookup fs' q = lookup fs q \<or> lookup fs' q = Some Dir"
proof -
  from assms have made: "fs' = fs @ [(p, Dir)]"
    by (auto simp: os_mkdir_def split: if_splits option.splits node.splits)
  have "lookup fs q = (if q = [] then Some Dir else map_of fs q)"
    by (simp add: lookup_def)
  then show ?thesis
    unfolding made lookup_snoc by (auto split: option.splits)
qed

lemma mkdir_exist_ok_lookup:
  "mkdir_exist_ok fs p = (fs', r) \<Longrightarrow> lookup fs' q = lookup fs q \<or> lookup fs' q = Some Dir"
  using os_mkdir_lookup [of fs p _ q]
  by (auto simp: mkdir_exist_ok_def split: sum.splits if_splits)

lemma mkdir_parents_lookup:
  "mkdir_parents fs p = (fs', r) \<Longrightarrow> lookup fs' q = lookup fs q \<or> lookup fs' q = Some Dir"
proof (induction fs p arbitrary: fs' r rule: mkdir_parents.induct)
  case (1 fs p)
  show ?case
  proof (cases "os_mkdir fs p")
    case (Inr fs1)
    with "1.prems" have "fs' = fs1"
      by (simp add: mkdir_parents.simps [of fs p])
    with Inr show ?thesis
      by (simp add: os_mkdir_lookup)
  next
    case (Inl e1)
    note first = Inl
    show ?thesis
    proof (cases "e1 = FileNotFoundError \<and> p \<noteq> []")
      case False
      with "1.prems" first have "fs' = fs"
        by (auto simp: mkdir_parents.simps [of fs p] split: if_splits)
      then show ?thesis
        by simp
    next
      case True
      obtain fs2 r2 where parent: "mkdir_parents fs (butlast p) = (fs2, r2)"
        by (cases "mkdir_parents fs (butlast p)")
      from "1.IH" [OF first _ _ parent] True
      have up: "lookup fs2 q = lookup fs q \<or> lookup fs2 q = Some Dir"
        by simp
      show ?thesis
      proof (cases r2)
        case None
        with "1.prems" first True parent have "mkdir_exist_ok fs2 p = (fs', r)"
          by (simp add: mkdir_parents.simps [of fs p])
        from mkdir_exist_ok_lookup [OF this, of q] up show ?thesis
          by auto
      next
        case (Some e2)
        with "1.prems" first True parent have "fs' = fs2"
          by (simp add: mkdir_parents.simps [of fs p])
        with up show ?thesis
          by simp
      qed
    qed
  qed
qed

lemma mkdir_parents_two:
  assumes "is_dir fs M"
    and "lookup fs (M @ [x]) = None \<or> lookup fs (M @ [x]) = Some Dir"
    and "lookup fs (M @ [x, y]) = None \<or> lookup fs (M @ [x, y]) = Some Dir"
  shows "snd (mkdir_parents fs (M @ [x, y])) = None"
proof -
  have parent: "butlast (M @ [x, y]) = M @ [x]"
    by (simp add: butlast_append)
  from assms(3) show ?thesis
  proof
    assume "lookup fs (M @ [x, y]) = Some Dir"
    then show ?thesis
      by (simp add: mkdir_parents.simps [of fs "M @ [x, y]"] os_mkdir_def path_exists_def
            is_dir_def)
  next
    assume none: "lookup fs (M @ [x, y]) = None"
    from assms(2) show ?thesis
    proof
      assume "lookup fs (M @ [x]) = Some Dir"
      with none show ?thesis
        by (simp add: mkdir_parents.simps [of fs "M @ [x, y]"] os_mkdir_def path_exists_def
              parent)
    next
      assume none': "lookup fs (M @ [x]) = None"
      from assms(1) none'
      have up: "mkdir_parents fs (M @ [x]) = (fs @ [(M @ [x], Dir)], None)"
        by (simp add: mkdir_parents.simps [of fs "M @ [x]"] os_mkdir_def path_exists_def
              is_dir_def)
      from none none' have "map_of fs (M @ [x, y]) = None" and "map_of fs (M @ [x]) = None"
        by (simp_all add: lookup_def)
      then have "snd (mkdir_exist_ok (fs @ [(M @ [x], Dir)]) (M @ [x, y])) = None"
        by (simp add: mkdir_exist_ok_def os_mkdir_def path_exists_def lookup_snoc parent)
      with none none' up show ?thesis
        by (simp add: mkdir_parents.simps [of fs "M @ [x, y]"] os_mkdir_def path_exists_def
              parent split: prod.splits)
    qed
  qed
qed

lemma target_paths:
  "target_serato s = target_music s @ [''_Serato_'']"
  "last (target_music s) = ''Music''"
  "target_music s \<noteq> []"
  by (simp_all add: target_serato_def target_music_def)

lemma sync_crates_returns:
  assumes "is_dir fs (target_music s)"
    and "lookup fs (target_serato s) = None \<or> lookup fs (target_serato s) = Some Dir"
    and "lookup fs (target_serato s @ [''Subcrates'']) = None
         \<or> lookup fs (target_serato s @ [''Subcrates'']) = Some Dir"
  shows "\<exists>fs1 ev1 n1.
           sync_crates s fs = (fs1, ev1, Inr n1)
         \<and> (path_exists fs (source_serato s @ [''Subcrates'']) \<longrightarrow>
              (\<exists>fsA. mkdir_parents fs (target_serato s @ [''Subcrates'']) = (fsA, None)
                 \<and> sync_files Crate s (target_serato s @ [''Subcrates'']) fsA
                      (glob fsA (source_serato s @ [''Subcrates'']) ''.crate'') = (fs1, ev1)
                 \<and> n1 = length (glob fsA (source_serato s @ [''Subcrates'']) ''.crate'')))
         \<and> (\<forall>q. \<not> suffix ''.crate'' (last q) \<longrightarrow>
                lookup fs1 q = lookup fs q \<or> lookup fs1 q = Some Dir)"
proof (cases "path_exists fs (source_serato s @ [''Subcrates''])")
  case False
  then show ?thesis
    by (simp add: sync_crates_def)
next
  case True
  let ?tgt = "target_serato s @ [''Subcrates'']" and ?src = "source_serato s @ [''Subcrates'']"
  obtain fsA r where made: "mkdir_parents fs ?tgt = (fsA, r)"
    by (cases "mkdir_parents fs ?tgt")
  from mkdir_parents_two [OF assms(1), of "''_Serato_''" "''Subcrates''"] assms(2,3) made
  have r: "r = None"
    by (simp add: target_paths)
  obtain fs1 ev1 where loop: "sync_files Crate s ?tgt fsA (glob fsA ?src ''.crate'') = (fs1, ev1)"
    by (cases "sync_files Crate s ?tgt fsA (glob fsA ?src ''.crate'')")
  have keep: "lookup fs1 q = lookup fs q \<or> lookup fs1 q = Some Dir"
    if "\<not> suffix ''.crate'' (last q)" for q
  proof -
    from sync_files_lookup [of "''.crate''" q "glob fsA ?src ''.crate''" Crate s ?tgt fsA] that loop
    have "lookup fs1 q = lookup fsA q"
      by (simp add: glob_suffix)
    with mkdir_parents_lookup [OF made, of q] show ?thesis
      by auto
  qed
  from True made r loop have "sync_crates s fs = (fs1, ev1, Inr (length (glob fsA ?src ''.crate'')))"
    by (simp add: sync_crates_def Let_def)
  with made r loop keep show ?thesis
    by auto
qed

lemma sync_smart_crates_returns:
  assumes "is_dir fs (target_music s)"
    and "lookup fs (target_serato s) = None \<or> lookup fs (target_serato s) = Some Dir"
    and "lookup fs (target_serato s @ [''SmartCrates'']) = None
         \<or> lookup fs (target_serato s @ [''SmartCrates'']) = Some Dir"
  shows "\<exists>fs2 ev2 n2.
           sync_smart_crates s fs = (fs2, ev2, Inr n2)
         \<and> (path_exists fs (source_serato s @ [''SmartCrates'']) \<longrightarrow>
              (\<exists>fsB. mkdir_parents fs (target_serato s @ [''SmartCrates'']) = (fsB, None)
                 \<and> sync_files SmartCrate s (target_serato s @ [''SmartCrates'']) fsB
                      (glob fsB (source_serato s @ [''SmartCrates'']) ''.scrate'') = (fs2, ev2)
                 \<and> n2 = length (glob fsB (source_serato s @ [''SmartCrates'']) ''.scrate'')))"
proof (cases "path_exists fs (source_serato s @ [''SmartCrates''])")
  case False
  then show ?thesis
    by (simp add: sync_smart_crates_def)
next
  case True
  let ?tgt = "target_serato s @ [''SmartCrates'']" and ?src = "source_serato s @ [''SmartCrates'']"
  obtain fsB r where made: "mkdir_parents fs ?tgt = (fsB, r)"
    by (cases "mkdir_parents fs ?tgt")
  from mkdir_parents_two [OF assms(1), of "''_Serato_''" "''SmartCrates''"] assms(2,3) made
  have r: "r = None"
    by (simp add: target_paths)
  obtain fs2 ev2
    where loop: "sync_files SmartCrate s ?tgt fsB (glob fsB ?src ''.scrate'') = (fs2, ev2)"
    by (cases "sync_files SmartCrate s ?tgt fsB (glob fsB ?src ''.scrate'')")
  from True made r loop
  have "sync_smart_crates s fs = (fs2, ev2, Inr (length (glob fsB ?src ''.scrate'')))"
    by (simp add: sync_smart_crates_def Let_def)
  with made r loop show ?thesis
    by auto
qed

lemma sync_database_line:
  "snd (sync_database s fs) = [Not_found ''database V2'']
   \<or> snd (sync_database s fs) = [Done ''database V2'']
   \<or> (\<exists>e. snd (sync_database s fs) = [Failed ''database V2'' e])"
  by (simp add: sync_database_def Let_def split: sum.splits prod.splits option.splits)

lemma not_crate_names:
  "\<not> suffix ''.crate'' ''Music''"
  "\<not> suffix ''.crate'' ''_Serato_''"
  "\<not> suffix ''.crate'' ''SmartCrates''"
  by (simp_all add: suffix_to_prefix)

text \<open>
  Claim C4, as amended. Take a run of \<open>sync_all\<close> on a well-formed filesystem that passes
  validation, with the destination music root a directory and the destination metadata path
  absent or a directory. A failure while opening, rewriting or saving one crate file, one
  smart-crate file or the database is caught, is reported on a line of its own, and never
  prevents the processing of the crate files, the smart-crate files and the database that
  remain:
  \<^item> a file that fails is reported under its name and leaves the filesystem as it was, and
    the loop handles the files after it exactly as it would had the failed file not been
    listed;
  \<^item> \<open>sync_crates\<close> raises nothing: where the source has crates, their destination directory
    is made and the loop runs over every file listed, whose number is returned;
  \<^item> \<open>sync_smart_crates\<close> then runs on the result in the same way, whatever the crates did;
  \<^item> \<open>sync_database\<close> then runs on that result, prints its one line and raises nothing;
  \<^item> \<open>sync_other_files\<close> is then started on the result of \<open>sync_database\<close>, and the run ends
    as this last step does, with the counts of the crates and smart crates as they were
    returned.

  The preference files are left out on both sides. Nothing catches a failure of their copy,
  and the copy can fail because of what happened before: it needs the destination metadata
  directory, which a database that fails to load does not create.
\<close>

theorem artifact_failures_isolated:
  assumes "tree fs"
    and "path_exists fs (source_serato s)"
    and "is_dir fs (target_music s)"
    and "path_exists fs (target_serato s) \<longrightarrow> is_dir fs (target_serato s)"
  shows "(\<forall>k target_dir fs' pre f post name e.
            snd (sync_file k s target_dir (fst (sync_files k s target_dir fs' pre)) f)
              = Failed name e \<longrightarrow>
            name = last f
            \<and> sync_files k s target_dir fs' (pre @ f # post)
                = (fst (sync_files k s target_dir fs' (pre @ post)),
                   snd (sync_files k s target_dir fs' pre) @ Failed name e
                     # snd (sync_files k s target_dir (fst (sync_files k s target_dir fs' pre))
                            post)))
       \<and> (\<exists>fs1 ev1 n1 fs2 ev2 n2 fs3 ev3.
            sync_crates s (outside (target_serato s) fs) = (fs1, ev1, Inr n1)
          \<and> (path_exists (outside (target_serato s) fs) (source_serato s @ [''Subcrates'']) \<longrightarrow>
               (\<exists>fsA. mkdir_parents (outside (target_serato s) fs) (target_serato s @ [''Subcrates''])
                        = (fsA, None)
                  \<and> sync_files Crate s (target_serato s @ [''Subcrates'']) fsA
                       (glob fsA (source_serato s @ [''Subcrates'']) ''.crate'') = (fs1, ev1)
                  \<and> n1 = length (glob fsA (source_serato s @ [''Subcrates'']) ''.crate'')))
          \<and> sync_smart_crates s fs1 = (fs2, ev2, Inr n2)
          \<and> (path_exists fs1 (source_serato s @ [''SmartCrates'']) \<longrightarrow>
               (\<exists>fsB. mkdir_parents fs1 (target_serato s @ [''SmartCrates'']) = (fsB, None)
                  \<and> sync_files SmartCrate s (target_serato s @ [''SmartCrates'']) fsB
                       (glob fsB (source_serato s @ [''SmartCrates'']) ''.scrate'') = (fs2, ev2)
                  \<and> n2 = length (glob fsB (source_serato s @ [''SmartCrates'']) ''.scrate'')))
          \<and> sync_database s fs2 = (fs3, ev3)
          \<and> (ev3 = [Not_found ''database V2''] \<or> ev3 = [Done ''database V2'']
               \<or> (\<exists>e. ev3 = [Failed ''database V2'' e]))
          \<and> sync_all s fs
              = (case sync_other_files s fs3 of
                   (fs4, ev4, r) \<Rightarrow>
                     (fs4, ev1 @ ev2 @ ev3 @ ev4,
                      case r of Inl e \<Rightarrow> Inl e | Inr n3 \<Rightarrow> Inr (n1, n2, n3))))"
proof
  show "\<forall>k target_dir fs' pre f post name e.
          snd (sync_file k s target_dir (fst (sync_files k s target_dir fs' pre)) f)
            = Failed name e \<longrightarrow>
          name = last f
          \<and> sync_files k s target_dir fs' (pre @ f # post)
              = (fst (sync_files k s target_dir fs' (pre @ post)),
                 snd (sync_files k s target_dir fs' pre) @ Failed name e
                   # snd (sync_files k s target_dir (fst (sync_files k s target_dir fs' pre))
                          post))"
    by (intro allI impI) (rule sync_files_skip_failed)
next
  let ?T = "target_serato s" and ?M = "target_music s" and ?S = "source_serato s"
  let ?fs0 = "outside ?T fs"
  have cleared: "clear_target s fs = Inr ?fs0"
  proof (cases "path_exists fs ?T")
    case True
    with assms(4) show ?thesis
      by (simp add: clear_target_def rmtree_def is_dir_def)
  next
    case False
    with no_orphans [OF assms(1) False] show ?thesis
      by (simp add: clear_target_def)
  qed
  from assms(3) have valid: "path_exists fs ?M"
    by (simp add: is_dir_def path_exists_def)
  have T: "?T = ?M @ [''_Serato_'']"
    by (rule target_paths(1))
  have "\<not> prefix ?T ?M"
    by (simp add: T)
  with assms(3) have M0: "is_dir ?fs0 ?M"
    by (simp add: is_dir_def lookup_outside target_paths(3))
  have T0: "lookup ?fs0 ?T = None"
    by (simp add: lookup_outside T)
  have sub0: "lookup ?fs0 (?T @ [''Subcrates'']) = None"
    by (simp add: lookup_outside)
  have smart0: "lookup ?fs0 (?T @ [''SmartCrates'']) = None"
    by (simp add: lookup_outside)
  from M0 T0 sub0 have "\<exists>fs1 ev1 n1.
           sync_crates s ?fs0 = (fs1, ev1, Inr n1)
         \<and> (path_exists ?fs0 (?S @ [''Subcrates'']) \<longrightarrow>
              (\<exists>fsA. mkdir_parents ?fs0 (?T @ [''Subcrates'']) = (fsA, None)
                 \<and> sync_files Crate s (?T @ [''Subcrates'']) fsA
                      (glob fsA (?S @ [''Subcrates'']) ''.crate'') = (fs1, ev1)
                 \<and> n1 = length (glob fsA (?S @ [''Subcrates'']) ''.crate'')))
         \<and> (\<forall>q. \<not> suffix ''.crate'' (last q) \<longrightarrow>
                lookup fs1 q = lookup ?fs0 q \<or> lookup fs1 q = Some Dir)"
    by (intro sync_crates_returns) simp_all
  then obtain fs1 ev1 n1
    where crates: "sync_crates s ?fs0 = (fs1, ev1, Inr n1)"
      and loop1: "path_exists ?fs0 (?S @ [''Subcrates'']) \<longrightarrow>
              (\<exists>fsA. mkdir_parents ?fs0 (?T @ [''Subcrates'']) = (fsA, None)
                 \<and> sync_files Crate s (?T @ [''Subcrates'']) fsA
                      (glob fsA (?S @ [''Subcrates'']) ''.crate'') = (fs1, ev1)
                 \<and> n1 = length (glob fsA (?S @ [''Subcrates'']) ''.crate''))"
      and keep: "\<And>q. \<not> suffix ''.crate'' (last q)
                   \<Longrightarrow> lookup fs1 q = lookup ?fs0 q \<or> lookup fs1 q = Some Dir"
    by blast
  from keep [of ?M] M0 have M1: "is_dir fs1 ?M"
    by (auto simp: is_dir_def target_paths(2) not_crate_names)
  from keep [of ?T] T0 have T1: "lookup fs1 ?T = None \<or> lookup fs1 ?T = Some Dir"
    by (auto simp: T not_crate_names)
  from keep [of "?T @ [''SmartCrates'']"] smart0
  have smart1: "lookup fs1 (?T @ [''SmartCrates'']) = None
                \<or> lookup fs1 (?T @ [''SmartCrates'']) = Some Dir"
    by (auto simp: not_crate_names)
  from sync_smart_crates_returns [OF M1 T1 smart1] obtain fs2 ev2 n2
    where smart: "sync_smart_crates s fs1 = (fs2, ev2, Inr n2)"
      and loop2: "path_exists fs1 (?S @ [''SmartCrates'']) \<longrightarrow>
              (\<exists>fsB. mkdir_parents fs1 (?T @ [''SmartCrates'']) = (fsB, None)
                 \<and> sync_files SmartCrate s (?T @ [''SmartCrates'']) fsB
                      (glob fsB (?S @ [''SmartCrates'']) ''.scrate'') = (fs2, ev2)
                 \<and> n2 = length (glob fsB (?S @ [''SmartCrates'']) ''.scrate''))"
    by blast
  obtain fs3 ev3 where db: "sync_database s fs2 = (fs3, ev3)"
    by (cases "sync_database s fs2")
  from sync_database_line [of s fs2] db
  have line: "ev3 = [Not_found ''database V2''] \<or> ev3 = [Done ''database V2'']
                \<or> (\<exists>e. ev3 = [Failed ''database V2'' e])"
    by simp
  from assms(2) valid cleared crates smart db
  have run: "sync_all s fs
              = (case sync_other_files s fs3 of
                   (fs4, ev4, r) \<Rightarrow>
                     (fs4, ev1 @ ev2 @ ev3 @ ev4,
                      case r of Inl e \<Rightarrow> Inl e | Inr n3 \<Rightarrow> Inr (n1, n2, n3)))"
    by (simp add: sync_all_def validate_paths_def sync_components_def
             split: prod.splits sum.splits)
  from crates loop1 smart loop2 db line run
  show "\<exists>fs1 ev1 n1 fs2 ev2 n2 fs3 ev3.
            sync_crates s ?fs0 = (fs1, ev1, Inr n1)
          \<and> (path_exists ?fs0 (?S @ [''Subcrates'']) \<longrightarrow>
               (\<exists>fsA. mkdir_parents ?fs0 (?T @ [''Subcrates'']) = (fsA, None)
                  \<and> sync_files Crate s (?T @ [''Subcrates'']) fsA
                       (glob fsA (?S @ [''Subcrates'']) ''.crate'') = (fs1, ev1)
                  \<and> n1 = length (glob fsA (?S @ [''Subcrates'']) ''.crate'')))
          \<and> sync_smart_crates s fs1 = (fs2, ev2, Inr n2)
          \<and> (path_exists fs1 (?S @ [''SmartCrates'']) \<longrightarrow>
               (\<exists>fsB. mkdir_parents fs1 (?T @ [''SmartCrates'']) = (fsB, None)
                  \<and> sync_files SmartCrate s (?T @ [''SmartCrates'']) fsB
                       (glob fsB (?S @ [''SmartCrates'']) ''.scrate'') = (fs2, ev2)
                  \<and> n2 = length (glob fsB (?S @ [''SmartCrates'']) ''.scrate'')))
          \<and> sync_database s fs2 = (fs3, ev3)
          \<and> (ev3 = [Not_found ''database V2''] \<or> ev3 = [Done ''database V2'']
               \<or> (\<exists>e. ev3 = [Failed ''database V2'' e]))
          \<and> sync_all s fs
              = (case sync_other_files s fs3 of
                   (fs4, ev4, r) \<Rightarrow>
                     (fs4, ev1 @ ev2 @ ev3 @ ev4,
                      case r of Inl e \<Rightarrow> Inl e | Inr n3 \<Rightarrow> Inr (n1, n2, n3)))"
    by (intro exI conjI)
qed

theorem artifact_failures_isolated_witness:
  "tree fs_library
   \<and> path_exists fs_library (source_serato sync_ex)
   \<and> is_dir fs_library (target_music sync_ex)
   \<and> is_dir fs_library (target_serato sync_ex)
   \<and> snd (sync_file Crate sync_ex (tgt_dir @ [''Subcrates''])
            (fst (sync_files Crate sync_ex (tgt_dir @ [''Subcrates''])
                    (fst (mkdir_parents (outside tgt_dir fs_library) (tgt_dir @ [''Subcrates''])))
                    [src_dir @ [''Subcrates'', ''House.crate'']]))
            (src_dir @ [''Subcrates'', ''Bad.crate'']))
       = Failed ''Bad.crate'' ParseError
   \<and> sync_files Crate sync_ex (tgt_dir @ [''Subcrates''])
         (fst (mkdir_parents (outside tgt_dir fs_library) (tgt_dir @ [''Subcrates''])))
         [src_dir @ [''Subcrates'', ''House.crate''], src_dir @ [''Subcrates'', ''Bad.crate''],
          src_dir @ [''Subcrates'', ''Techno.crate'']]
       = (fst (sync_files Crate sync_ex (tgt_dir @ [''Subcrates''])
                 (fst (mkdir_parents (outside tgt_dir fs_library) (tgt_dir @ [''Subcrates''])))
                 [src_dir @ [''Subcrates'', ''House.crate''],
                  src_dir @ [''Subcrates'', ''Techno.crate'']]),
          [Done ''House.crate'', Failed ''Bad.crate'' ParseError, Done ''Techno.crate''])
   \<and> snd (sync_all sync_ex fs_library)
       = ([Done ''House.crate'', Failed ''Bad.crate'' ParseError, Done ''Techno.crate'',
           Done ''Recent.scrate'', Done ''database V2'', Done ''neworder.pref''],
          Inr (3, 1, 1))"
proof -
  let ?fs0 = "outside (target_serato sync_ex) fs_library"
  let ?dir = "tgt_dir @ [''Subcrates'']"
  let ?fsA = "fst (mkdir_parents (outside tgt_dir fs_library) (tgt_dir @ [''Subcrates'']))"
  let ?house = "src_dir @ [''Subcrates'', ''House.crate'']"
  let ?bad = "src_dir @ [''Subcrates'', ''Bad.crate'']"
  let ?techno = "src_dir @ [''Subcrates'', ''Techno.crate'']"
  have h1: "tree fs_library"
    by code_simp
  have h2: "path_exists fs_library (source_serato sync_ex)"
    by code_simp
  have h3: "is_dir fs_library (target_music sync_ex)"
    by code_simp
  have h4: "is_dir fs_library (target_serato sync_ex)"
    by code_simp
  then have h4': "path_exists fs_library (target_serato sync_ex)
                    \<longrightarrow> is_dir fs_library (target_serato sync_ex)"
    by simp
  note isolated = artifact_failures_isolated [OF h1 h2 h3 h4']
  have p: "snd (sync_file Crate sync_ex ?dir (fst (sync_files Crate sync_ex ?dir ?fsA [?house])) ?bad)
             = Failed ''Bad.crate'' ParseError"
    by code_simp
  have e1: "snd (sync_files Crate sync_ex ?dir ?fsA [?house]) = [Done ''House.crate'']"
    by code_simp
  have e2: "snd (sync_files Crate sync_ex ?dir (fst (sync_files Crate sync_ex ?dir ?fsA [?house]))
                   [?techno])
              = [Done ''Techno.crate'']"
    by code_simp
  have "sync_files Crate sync_ex ?dir ?fsA ([?house] @ ?bad # [?techno])
          = (fst (sync_files Crate sync_ex ?dir ?fsA ([?house] @ [?techno])),
             snd (sync_files Crate sync_ex ?dir ?fsA [?house]) @ Failed ''Bad.crate'' ParseError
               # snd (sync_files Crate sync_ex ?dir
                        (fst (sync_files Crate sync_ex ?dir ?fsA [?house])) [?techno]))"
    by (rule isolated [THEN conjunct1, rule_format, OF p, THEN conjunct2])
  then have loop: "sync_files Crate sync_ex ?dir ?fsA [?house, ?bad, ?techno]
          = (fst (sync_files Crate sync_ex ?dir ?fsA [?house, ?techno]),
             [Done ''House.crate'', Failed ''Bad.crate'' ParseError, Done ''Techno.crate''])"
    unfolding e1 e2 append_Cons append_Nil .
  have k1: "fst (snd (sync_crates sync_ex ?fs0))
              = [Done ''House.crate'', Failed ''Bad.crate'' ParseError, Done ''Techno.crate'']"
    by code_simp
  have k2: "snd (snd (sync_crates sync_ex ?fs0)) = Inr 3"
    by code_simp
  have k3: "fst (snd (sync_smart_crates sync_ex (fst (sync_crates sync_ex ?fs0))))
              = [Done ''Recent.scrate'']"
    by code_simp
  have k4: "snd (snd (sync_smart_crates sync_ex (fst (sync_crates sync_ex ?fs0)))) = Inr 1"
    by code_simp
  have k5: "snd (sync_database sync_ex
                   (fst (sync_smart_crates sync_ex (fst (sync_crates sync_ex ?fs0)))))
              = [Done ''database V2'']"
    by code_simp
  have k6: "snd (sync_other_files sync_ex
                   (fst (sync_database sync_ex
                      (fst (sync_smart_crates sync_ex (fst (sync_crates sync_ex ?fs0)))))))
              = ([Done ''neworder.pref''], Inr 1)"
    by code_simp
  from isolated [THEN conjunct2] obtain fs1 ev1 n1 fs2 ev2 n2 fs3 ev3
    where a: "sync_crates sync_ex ?fs0 = (fs1, ev1, Inr n1)"
      and b: "sync_smart_crates sync_ex fs1 = (fs2, ev2, Inr n2)"
      and d: "sync_database sync_ex fs2 = (fs3, ev3)"
      and run: "sync_all sync_ex fs_library
                  = (case sync_other_files sync_ex fs3 of
                       (fs4, ev4, r) \<Rightarrow>
                         (fs4, ev1 @ ev2 @ ev3 @ ev4,
                          case r of Inl e \<Rightarrow> Inl e | Inr n3 \<Rightarrow> Inr (n1, n2, n3)))"
    by blast
  from a k1 k2 have a': "fs1 = fst (sync_crates sync_ex ?fs0)"
    and ev1: "ev1 = [Done ''House.crate'', Failed ''Bad.crate'' ParseError, Done ''Techno.crate'']"
    and n1: "n1 = 3"
    by simp_all
  from b k3 k4 have b': "fs2 = fst (sync_smart_crates sync_ex (fst (sync_crates sync_ex ?fs0)))"
    and ev2: "ev2 = [Done ''Recent.scrate'']" and n2: "n2 = 1"
    unfolding a' by simp_all
  from d k5 have d': "fs3 = fst (sync_database sync_ex
                   (fst (sync_smart_crates sync_ex (fst (sync_crates sync_ex ?fs0)))))"
    and ev3: "ev3 = [Done ''database V2'']"
    unfolding b' by simp_all
  from k6 obtain fs4 where "sync_other_files sync_ex fs3 = (fs4, [Done ''neworder.pref''], Inr 1)"
    unfolding d' by (cases "sync_other_files sync_ex (fst (sync_database sync_ex
                   (fst (sync_smart_crates sync_ex (fst (sync_crates sync_ex ?fs0))))))") simp
  with run ev1 ev2 ev3 n1 n2
  have all: "snd (sync_all sync_ex fs_library)
       = ([Done ''House.crate'', Failed ''Bad.crate'' ParseError, Done ''Techno.crate'',
           Done ''Recent.scrate'', Done ''database V2'', Done ''neworder.pref''],
          Inr (3, 1, 1))"
    by simp
  from h1 h2 h3 h4 p loop all show ?thesis
    by (intro conjI)
qed

text \<open>
  Claim C4 as stated fails for the preference files: nothing catches the exception of
  \<open>copy2\<close>. In a library with two preference files and no destination metadata directory,
  the copy of the first raises, the second is never copied and the run ends with the
  exception.
\<close>

theorem preference_failure_counterexample:
  "path_exists fs_prefs_only (source_serato sync_ex @ [''neworder.pref''])
   \<and> path_exists fs_prefs_only (source_serato sync_ex @ [''window.pref''])
   \<and> sync_all sync_ex fs_prefs_only
       = (fs_prefs_only,
          [Not_found ''Subcrates'', Not_found ''SmartCrates'', Not_found ''database V2''],
          Inl FileNotFoundError)"
proof -
  have a: "path_exists fs_prefs_only (source_serato sync_ex @ [''neworder.pref''])"
    by code_simp
  have b: "path_exists fs_prefs_only (source_serato sync_ex @ [''window.pref''])"
    by code_simp
  have c: "sync_all sync_ex fs_prefs_only
       = (fs_prefs_only,
          [Not_found ''Subcrates'', Not_found ''SmartCrates'', Not_found ''database V2''],
          Inl FileNotFoundError)"
    by code_simp
  from a b c show ?thesis
    by simp
qed

text \<open>
  A database that fails has the same end. In a library with a database that does not parse
  and one preference file, the failure is caught and reported, but the destination metadata
  directory, which \<open>sync_database\<close> makes after loading, is never made: the copy of the
  preference file raises and the run ends with the exception.
\<close>

lemma database_failure_stops_preferences:
  "path_exists fs_bad_database (source_serato sync_ex @ [''neworder.pref''])
   \<and> sync_all sync_ex fs_bad_database
       = (fs_bad_database,
          [Not_found ''Subcrates'', Not_found ''SmartCrates'', Failed ''database V2'' ParseError],
          Inl FileNotFoundError)"
proof -
  have a: "path_exists fs_bad_database (source_serato sync_ex @ [''neworder.pref''])"
    by code_simp
  have b: "sync_all sync_ex fs_bad_database
       = (fs_bad_database,
          [Not_found ''Subcrates'', Not_found ''SmartCrates'', Failed ''database V2'' ParseError],
          Inl FileNotFoundError)"
    by code_simp
  from a b show ?thesis
    by simp
qed

end
